theory Spec2Isabelle
  imports Main "HOL-Library.Word"
begin

unbundle bit_operations_syntax

section \<open>JavaScript strings and byte chunks\<close>

text \<open>
  A JavaScript string is a sequence of UTF-16 code units; a chunk delivered by the body
  reader is a \<open>Uint8Array\<close>. String literals of the source are written \<open>js ''...''\<close>.
\<close>

type_synonym byte = "8 word"
type_synonym code_unit = "16 word"
type_synonym jsstring = "code_unit list"

definition js :: "string \<Rightarrow> jsstring" where
  "js s = map of_char s"

definition LF :: code_unit where
  "LF = 0x0A"

text \<open>\<open>s.startsWith(p)\<close> and \<open>s.slice(n)\<close> for a non-negative \<open>n\<close>.\<close>

definition startsWith :: "jsstring \<Rightarrow> jsstring \<Rightarrow> bool" where
  "startsWith s p = (take (length p) s = p)"

definition slice :: "nat \<Rightarrow> jsstring \<Rightarrow> jsstring" where
  "slice n s = drop n s"

text \<open>
  \<open>s.split(sep)\<close> for a one-unit separator: the segments between the separators, so the
  result has one element more than \<open>s\<close> has separators and is never empty.
\<close>

fun split_on :: "code_unit \<Rightarrow> jsstring \<Rightarrow> jsstring list" where
  "split_on sep [] = [[]]"
| "split_on sep (c # cs) =
     (if c = sep then [] # split_on sep cs
      else (case split_on sep cs of
              [] \<Rightarrow> [[c]]
            | seg # segs \<Rightarrow> (c # seg) # segs))"

text \<open>\<open>xs.pop()\<close>: the last element (\<open>undefined\<close> on an empty array) and the array left.\<close>

fun pop :: "'a list \<Rightarrow> 'a option \<times> 'a list" where
  "pop [] = (None, [])"
| "pop (x # xs) = (Some (last (x # xs)), butlast (x # xs))"

section \<open>The platform's streaming text decoder\<close>

text \<open>
  \<open>new TextDecoder()\<close> is the platform's UTF-8 decoder, not code of this repository. It is
  written here after the WHATWG Encoding Standard: the UTF-8 decoder's handler, one byte
  at a time, with errors replaced by U+FFFD, a leading byte order mark dropped, and the
  scalar values serialised as UTF-16. With \<open>{stream: true}\<close> the state is kept from one
  call of \<open>decode\<close> to the next and nothing is flushed.
\<close>

record TextDecoder =
  code_point :: "32 word"
  bytes_seen :: nat
  bytes_needed :: nat
  lower_boundary :: byte
  upper_boundary :: byte
  BOM_seen :: bool

definition new_TextDecoder :: TextDecoder where
  "new_TextDecoder =
     \<lparr>code_point = 0, bytes_seen = 0, bytes_needed = 0,
      lower_boundary = 0x80, upper_boundary = 0xBF, BOM_seen = False\<rparr>"

definition utf8_reset :: "TextDecoder \<Rightarrow> TextDecoder" where
  "utf8_reset d =
     d\<lparr>code_point := 0, bytes_seen := 0, bytes_needed := 0,
       lower_boundary := 0x80, upper_boundary := 0xBF\<rparr>"

text \<open>The handler when no continuation byte is awaited (step 3 of the standard).\<close>

definition utf8_lead :: "TextDecoder \<Rightarrow> byte \<Rightarrow> TextDecoder \<times> 32 word list" where
  "utf8_lead d b =
     (if b \<le> 0x7F then (d, [ucast b])
      else if 0xC2 \<le> b \<and> b \<le> 0xDF then
        (d\<lparr>bytes_needed := 1, code_point := ucast (b AND 0x1F)\<rparr>, [])
      else if 0xE0 \<le> b \<and> b \<le> 0xEF then
        (d\<lparr>lower_boundary := (if b = 0xE0 then 0xA0 else lower_boundary d),
           upper_boundary := (if b = 0xED then 0x9F else upper_boundary d),
           bytes_needed := 2, code_point := ucast (b AND 0xF)\<rparr>, [])
      else if 0xF0 \<le> b \<and> b \<le> 0xF4 then
        (d\<lparr>lower_boundary := (if b = 0xF0 then 0x90 else lower_boundary d),
           upper_boundary := (if b = 0xF4 then 0x8F else upper_boundary d),
           bytes_needed := 3, code_point := ucast (b AND 0x7)\<rparr>, [])
      else (d, [0xFFFD]))"

text \<open>
  The whole handler. A byte outside the expected range ends the sequence with an error
  and is processed again from the reset state (the standard restores it to the queue).
\<close>

definition utf8_handler :: "TextDecoder \<Rightarrow> byte \<Rightarrow> TextDecoder \<times> 32 word list" where
  "utf8_handler d b =
     (if bytes_needed d = 0 then utf8_lead d b
      else if \<not> (lower_boundary d \<le> b \<and> b \<le> upper_boundary d) then
        (let (d', out) = utf8_lead (utf8_reset d) b in (d', 0xFFFD # out))
      else
        (let cp = push_bit 6 (code_point d) OR ucast (b AND 0x3F);
             seen = bytes_seen d + 1
         in if seen \<noteq> bytes_needed d then
              (d\<lparr>lower_boundary := 0x80, upper_boundary := 0xBF,
                 code_point := cp, bytes_seen := seen\<rparr>, [])
            else (utf8_reset d, [cp])))"

definition utf16 :: "32 word \<Rightarrow> jsstring" where
  "utf16 cp =
     (if cp \<le> 0xFFFF then [ucast cp]
      else [0xD800 + ucast (drop_bit 10 (cp - 0x10000)),
            0xDC00 + ucast ((cp - 0x10000) AND 0x3FF)])"

text \<open>Serialising the scalar values: the first one is dropped when it is U+FEFF.\<close>

fun serialize :: "bool \<Rightarrow> 32 word list \<Rightarrow> jsstring \<times> bool" where
  "serialize seen [] = ([], seen)"
| "serialize seen (item # items) =
     (if \<not> seen \<and> item = 0xFEFF then serialize True items
      else (let (out, seen') = serialize True items in (utf16 item @ out, seen')))"

definition decode_byte :: "TextDecoder \<Rightarrow> byte \<Rightarrow> jsstring \<times> TextDecoder" where
  "decode_byte d b =
     (let (d1, items) = utf8_handler d b;
          (out, seen) = serialize (BOM_seen d1) items
      in (out, d1\<lparr>BOM_seen := seen\<rparr>))"

text \<open>\<open>decoder.decode(value, {stream: true})\<close>: the text and the decoder afterwards.\<close>

fun decode :: "TextDecoder \<Rightarrow> byte list \<Rightarrow> jsstring \<times> TextDecoder" where
  "decode d [] = ([], d)"
| "decode d (b # bs) =
     (let (out, d1) = decode_byte d b;
          (rest, d2) = decode d1 bs
      in (out @ rest, d2))"

section \<open>Errors, effects and the body reader\<close>

text \<open>
  An exception is a value. \<open>HalapiError\<close> is the client's class (lines 123-131: message
  and optional \<open>statusCode\<close>); every other exception is kept with the name of its class,
  so \<open>new Error(m)\<close> is \<open>OtherError (js ''Error'') m\<close>.
\<close>

datatype error =
    HalapiError jsstring "nat option"
  | OtherError jsstring jsstring

fun instanceof_HalapiError :: "error \<Rightarrow> bool" where
  "instanceof_HalapiError (HalapiError _ _) = True"
| "instanceof_HalapiError (OtherError _ _) = False"

text \<open>
  \<open>reader.read()\<close> resolves to a chunk, or rejects. A body is the list of what its reads
  deliver until the source signals its end, so the end of the list is \<open>{done: true}\<close>; a
  body that never ends is not an input of the model.
\<close>

datatype read_result = Chunk "byte list" | ReadFails error

text \<open>An \<open>AbortSignal\<close> object, known by its identity only.\<close>

datatype AbortSignal = AbortSignal nat

text \<open>
  The object given to \<open>JSON.stringify\<close> for the request body: \<open>{query, conversationId,
  externalUserId, metadata}\<close> or \<open>{isbn13s}\<close>.
\<close>

datatype 'j body_object =
    ChatBody (body_query: jsstring) (body_conversationId: "jsstring option")
      (body_externalUserId: jsstring) (body_metadata: "'j option")
  | IsbnBody (body_isbn13s: "jsstring list")

text \<open>
  The arguments of one call \<open>fetchFn(input, init)\<close>; \<open>init_body\<close> is the object whose
  \<open>JSON.stringify\<close> is sent.
\<close>

record 'j Request =
  input :: jsstring
  init_method :: "jsstring option"
  init_headers :: "(jsstring \<times> jsstring) list"
  init_body :: "'j body_object option"
  init_signal :: "AbortSignal option"

text \<open>
  What an operation does that its caller or the outside can observe, in order: a call of
  the transport, an event handed to the consumer of the generator, a line written by
  \<open>console.warn\<close> or \<open>console.error\<close>, and \<open>reader.releaseLock()\<close>.
\<close>

datatype 'j effect =
    Fetch "'j Request"
  | Yield 'j
  | Warn jsstring
  | ConsoleError jsstring
  | ReleaseLock

fun emitted :: "'j effect list \<Rightarrow> 'j list" where
  "emitted [] = []"
| "emitted (Yield e # tr) = e # emitted tr"
| "emitted (_ # tr) = emitted tr"

fun requests :: "'j effect list \<Rightarrow> 'j Request list" where
  "requests [] = []"
| "requests (Fetch r # tr) = r # requests tr"
| "requests (_ # tr) = requests tr"

fun releases :: "'j effect list \<Rightarrow> nat" where
  "releases [] = 0"
| "releases (ReleaseLock # tr) = Suc (releases tr)"
| "releases (_ # tr) = releases tr"

section \<open>The decoding loop of chatStream\<close>

text \<open>
  Lines 289-314 of the client: the buffer, the loop over the reads and the loop over the
  lines, inside \<open>try\<close> ... \<open>finally\<close>.
\<close>

text \<open>
  The consumer of the generator: \<open>None\<close> iterates to the end; \<open>Some k\<close> accepts \<open>k\<close>
  events and leaves the \<open>for await\<close> loop on the next one it is handed, which makes the
  generator return at that \<open>yield\<close>.
\<close>

type_synonym consumer = "nat option"

text \<open>
  \<open>for (const line of lines)\<close> (lines 301-310): the effects, the consumer afterwards, and
  whether the consumer left. \<open>JSON.parse\<close> is the platform's; it is a parameter, \<open>Inl\<close> the
  message of the \<open>SyntaxError\<close> it throws, which the \<open>catch\<close> turns into a warning.
\<close>

fun for_lines ::
  "(jsstring \<Rightarrow> jsstring + 'j) \<Rightarrow> jsstring list \<Rightarrow> consumer \<Rightarrow> 'j effect list \<times> consumer \<times> bool"
where
  "for_lines parse [] k = ([], k, False)"
| "for_lines parse (line # rest) k =
     (if startsWith line (js ''data: '') then
        (case parse (slice 6 line) of
           Inr event \<Rightarrow>
             (case k of
                Some 0 \<Rightarrow> ([Yield event], k, True)
              | _ \<Rightarrow>
                 (let (tr, k', left) = for_lines parse rest (map_option (\<lambda>n. n - 1) k)
                  in (Yield event # tr, k', left)))
         | Inl _ \<Rightarrow>
             (let (tr, k', left) = for_lines parse rest k
              in (Warn line # tr, k', left)))
      else for_lines parse rest k)"

datatype loop_exit = Finished | Left | Raised error

text \<open>
  \<open>while (true)\<close> over the reads of the body (lines 293-311): the buffer takes the
  decoded chunk, is split at the newlines, keeps its last segment and hands the others
  to \<open>for_lines\<close>. The loop ends when the body does, when a read rejects, or when the
  consumer leaves.
\<close>

fun read_loop ::
  "(jsstring \<Rightarrow> jsstring + 'j) \<Rightarrow> read_result list \<Rightarrow> TextDecoder \<Rightarrow> jsstring \<Rightarrow> consumer
     \<Rightarrow> 'j effect list \<times> loop_exit"
where
  "read_loop parse [] decoder buffer k = ([], Finished)"
| "read_loop parse (ReadFails e # reads) decoder buffer k = ([], Raised e)"
| "read_loop parse (Chunk val # reads) decoder buffer k =
     (let (text, decoder') = decode decoder val;
          (popped, lines) = pop (split_on LF (buffer @ text));
          buffer' = (case popped of None \<Rightarrow> [] | Some seg \<Rightarrow> seg);
          (tr, k', left) = for_lines parse lines k
      in if left then (tr, Left)
         else (let (tr', ex) = read_loop parse reads decoder' buffer' k'
               in (tr @ tr', ex)))"

section \<open>Configuration, transport and platform\<close>

record HalapiConfig =
  apiUrl :: jsstring
  apiToken :: jsstring

text \<open>
  \<open>isConfigValid\<close> (config.ts, lines 73-75) is \<open>Boolean(config.apiToken)\<close>: a string is
  truthy when it is not empty.
\<close>

definition isConfigValid :: "HalapiConfig \<Rightarrow> bool" where
  "isConfigValid config = (apiToken config \<noteq> [])"

text \<open>
  A response of the transport: \<open>headers_get\<close> is \<open>response.headers.get\<close>, \<open>body\<close> the reads
  its reader will deliver (\<open>None\<close>: no body).
\<close>

record Response =
  ok :: bool
  status :: nat
  headers_get :: "jsstring \<Rightarrow> jsstring option"
  body :: "read_result list option"

text \<open>
  What \<open>createHalapiClient\<close> is given and what the platform provides: the outcome of
  awaiting \<open>getConfig()\<close>, the transport \<open>fetchFn\<close> (\<open>Inl\<close>: the promise rejects),
  \<open>JSON.parse\<close>, the text that the template literal makes of \<open>errorData.error?.message\<close>
  when that is truthy (\<open>None\<close> when it is falsy or the access throws), the serialisation of
  a \<open>URLSearchParams\<close>, \<open>new Date().toISOString()\<close>, and \<open>String(n)\<close> for the number that
  \<open>getConversations\<close> is given as its limit (decimal digits for the integers below
  \<open>10^21\<close>, exponent notation from there on).
\<close>

record 'j env =
  getConfig :: "error + HalapiConfig"
  fetchFn :: "'j Request \<Rightarrow> error + Response"
  JSON_parse :: "jsstring \<Rightarrow> jsstring + 'j"
  error_message :: "'j \<Rightarrow> jsstring option"
  URLSearchParams_toString :: "(jsstring \<times> jsstring) list \<Rightarrow> jsstring"
  toISOString_now :: jsstring
  Number_toString :: "nat \<Rightarrow> jsstring"

text \<open>
  \<open>${response.status}\<close>: the decimal digits of a status code (an unsigned short of the
  transport).
\<close>

function String_nat :: "nat \<Rightarrow> jsstring" where
  "String_nat n =
     (if n < 10 then [of_nat (48 + n)]
      else String_nat (n div 10) @ [of_nat (48 + n mod 10)])"
  by pat_completeness auto
termination
  by (relation "measure id") auto

text \<open>
  \<open>response.text()\<close> reads the body to its end and decodes it as UTF-8 (an unfinished
  sequence at the end becomes U+FFFD); \<open>response.json()\<close> parses that text.
\<close>

fun read_all :: "read_result list \<Rightarrow> error + byte list" where
  "read_all [] = Inr []"
| "read_all (ReadFails e # reads) = Inl e"
| "read_all (Chunk val # reads) =
     (case read_all reads of Inl e \<Rightarrow> Inl e | Inr bytes \<Rightarrow> Inr (val @ bytes))"

definition utf8_decode :: "byte list \<Rightarrow> jsstring" where
  "utf8_decode bytes =
     (let (out, d) = decode new_TextDecoder bytes
      in if bytes_needed d \<noteq> 0 then out @ [0xFFFD] else out)"

definition response_text :: "Response \<Rightarrow> error + jsstring" where
  "response_text response =
     (case body response of
        None \<Rightarrow> Inr []
      | Some reads \<Rightarrow>
          (case read_all reads of Inl e \<Rightarrow> Inl e | Inr bytes \<Rightarrow> Inr (utf8_decode bytes)))"

definition response_json :: "'j env \<Rightarrow> Response \<Rightarrow> error + 'j" where
  "response_json env response =
     (case response_text response of
        Inl e \<Rightarrow> Inl e
      | Inr tx \<Rightarrow>
          (case JSON_parse env tx of
             Inl m \<Rightarrow> Inl (OtherError (js ''SyntaxError'') m)
           | Inr v \<Rightarrow> Inr v))"

section \<open>The client\<close>

text \<open>
  \<open>resolveConfig\<close>, \<open>getAuthHeaders\<close>, \<open>getApiUrl\<close> and \<open>handleErrorResponse\<close> are the
  helpers of \<open>createHalapiClient\<close> (lines 191-220); \<open>chatStream\<close> is lines 255-317.
\<close>

definition resolveConfig :: "'j env \<Rightarrow> error + HalapiConfig" where
  "resolveConfig env =
     (case getConfig env of
        Inl e \<Rightarrow> Inl e
      | Inr config \<Rightarrow>
          if \<not> isConfigValid config then Inl (HalapiError (js ''API token not configured'') None)
          else Inr config)"

definition getAuthHeaders :: "HalapiConfig \<Rightarrow> (jsstring \<times> jsstring) list" where
  "getAuthHeaders config = [(js ''Authorization'', js ''Bearer '' @ apiToken config)]"

definition getApiUrl :: "HalapiConfig \<Rightarrow> jsstring \<Rightarrow> jsstring" where
  "getApiUrl config path = apiUrl config @ path"

text \<open>\<open>handleErrorResponse\<close> always throws; the model returns the error it throws.\<close>

definition handleErrorResponse :: "'j env \<Rightarrow> Response \<Rightarrow> jsstring \<Rightarrow> error" where
  "handleErrorResponse env response context =
     (let errorMessage = context @ js '': HTTP '' @ String_nat (status response);
          errorMessage' =
            (case response_json env response of
               Inr errorData \<Rightarrow>
                 (case error_message env errorData of
                    Some m \<Rightarrow> context @ js '': '' @ m
                  | None \<Rightarrow> errorMessage)
             | Inl _ \<Rightarrow> errorMessage)
      in HalapiError errorMessage' (Some (status response)))"

record 'j ChatStreamOptions =
  query :: jsstring
  conversationId :: "jsstring option"
  externalUserId :: "jsstring option"
  metadata :: "'j option"
  signal :: "AbortSignal option"

text \<open>\<open>{conversationId, messageId}\<close>, each \<open>None\<close> for \<open>null\<close>.\<close>

datatype ChatStreamResult = ChatStreamResult "jsstring option" "jsstring option"

text \<open>
  How a run of the generator ends: it returns its result, it throws, or the consumer
  left and the generator returned at the \<open>yield\<close>.
\<close>

datatype outcome = Returned ChatStreamResult | Threw error | Abandoned

text \<open>The request that \<open>chatStream\<close> hands to the transport (lines 260-275).\<close>

definition chatStream_request :: "HalapiConfig \<Rightarrow> 'j ChatStreamOptions \<Rightarrow> 'j Request" where
  "chatStream_request config options =
     \<lparr>input = getApiUrl config (js ''/api/halap/chat/stream''),
      init_method = Some (js ''POST''),
      init_headers = getAuthHeaders config @ [(js ''Content-Type'', js ''application/json'')],
      init_body = Some (ChatBody (query options) (conversationId options)
                    (case externalUserId options of None \<Rightarrow> js ''sdk-user'' | Some u \<Rightarrow> u)
                    (metadata options)),
      init_signal = signal options\<rparr>"

text \<open>
  The generator as a whole: the effects of a run and how it ends. The \<open>finally\<close> block is
  the \<open>ReleaseLock\<close> that follows the loop whichever way the loop ended. The metadata of
  these options is a value of \<open>'j\<close>, one that \<open>JSON.stringify\<close> (line 268) serialises.
\<close>

definition chatStream :: "'j env \<Rightarrow> 'j ChatStreamOptions \<Rightarrow> consumer \<Rightarrow> 'j effect list \<times> outcome" where
  "chatStream env options k =
     (case resolveConfig env of
        Inl e \<Rightarrow> ([], Threw e)
      | Inr config \<Rightarrow>
          (let request = chatStream_request config options in
           case fetchFn env request of
             Inl e \<Rightarrow> ([Fetch request], Threw e)
           | Inr response \<Rightarrow>
               if \<not> ok response then
                 ([Fetch request], Threw (handleErrorResponse env response (js ''Chat stream failed'')))
               else
                 (let conversationId = headers_get response (js ''X-Conversation-Id'');
                      messageId = headers_get response (js ''X-Message-Id'')
                  in case body response of
                       None \<Rightarrow>
                         ([Fetch request],
                          Threw (HalapiError (js ''Response body is not readable'') None))
                     | Some reads \<Rightarrow>
                         (let (tr, ex) = read_loop (JSON_parse env) reads new_TextDecoder [] k
                          in (Fetch request # tr @ [ReleaseLock],
                              case ex of
                                Finished \<Rightarrow> Returned (ChatStreamResult conversationId messageId)
                              | Left \<Rightarrow> Abandoned
                              | Raised e \<Rightarrow> Threw e)))))"

text \<open>
  A call of \<open>chatStream\<close> whose metadata is not such a value (a \<open>BigInt\<close>, a cycle): the
  configuration is resolved (line 258), then \<open>JSON.stringify\<close> throws its \<open>TypeError\<close> while
  the argument of \<open>fetchFn\<close> is built (line 268), so the transport is not called. The
  parameter is the error that \<open>JSON.stringify\<close> throws.
\<close>

definition chatStream_unserialisable :: "'j env \<Rightarrow> error \<Rightarrow> 'j effect list \<times> outcome" where
  "chatStream_unserialisable env stringify_error =
     (case resolveConfig env of
        Inl e \<Rightarrow> ([], Threw e)
      | Inr config \<Rightarrow> ([], Threw stringify_error))"

section \<open>The accessors\<close>

text \<open>
  \<open>getConversations\<close> (lines 326-366), \<open>getConversation\<close> (374-393), \<open>getBookArtifacts\<close>
  (401-414), \<open>getMusicArtifacts\<close> (422-435) and \<open>getBookPresentations\<close> (443-468). Each
  returns the effects it had and either the error it throws or its value.
\<close>

text \<open>
  \<open>s.trim()\<close> removes the white space and line terminators of ECMAScript at both ends;
  \<open>s.substring(0, n)\<close> keeps the first \<open>n\<close> code units.
\<close>

definition isWhiteSpace :: "code_unit \<Rightarrow> bool" where
  "isWhiteSpace c =
     (c \<in> {0x09, 0x0A, 0x0B, 0x0C, 0x0D, 0x20, 0xA0, 0x1680, 0x2028, 0x2029, 0x202F,
            0x205F, 0x3000, 0xFEFF}
      \<or> (0x2000 \<le> c \<and> c \<le> 0x200A))"

definition trim :: "jsstring \<Rightarrow> jsstring" where
  "trim s = rev (dropWhile isWhiteSpace (rev (dropWhile isWhiteSpace s)))"

definition substring0 :: "nat \<Rightarrow> jsstring \<Rightarrow> jsstring" where
  "substring0 n s = take n s"

text \<open>
  What \<open>getConversations\<close> resolves to: the object it builds for an empty body (with
  its timestamp), or the parsed body.
\<close>

datatype 'j conversations = EmptyConversationsList jsstring | Parsed 'j

definition getConversations ::
  "'j env \<Rightarrow> jsstring option \<Rightarrow> nat option \<Rightarrow> 'j effect list \<times> (error + 'j conversations)"
where
  "getConversations env externalUserId' limit =
     (case resolveConfig env of
        Inl e \<Rightarrow> ([], Inl e)
      | Inr config \<Rightarrow>
          (let params =
                 [(js ''limit'', Number_toString env (case limit of None \<Rightarrow> 20 | Some n \<Rightarrow> n))];
               params' =
                 (case externalUserId' of
                    None \<Rightarrow> params
                  | Some u \<Rightarrow> if u \<noteq> [] then params @ [(js ''externalUserId'', u)] else params);
               request =
                 \<lparr>input = getApiUrl config
                            (js ''/api/halap/conversations?'' @ URLSearchParams_toString env params'),
                  init_method = None, init_headers = getAuthHeaders config,
                  init_body = None, init_signal = None\<rparr>
           in case fetchFn env request of
                Inl e \<Rightarrow> ([Fetch request], Inl e)
              | Inr response \<Rightarrow>
                  if \<not> ok response then
                    ([Fetch request],
                     Inl (handleErrorResponse env response (js ''Failed to fetch conversations'')))
                  else
                    (case response_text response of
                       Inl e \<Rightarrow> ([Fetch request], Inl e)
                     | Inr tx \<Rightarrow>
                         if tx = [] \<or> trim tx = [] then
                           ([Fetch request], Inr (EmptyConversationsList (toISOString_now env)))
                         else
                           (case JSON_parse env tx of
                              Inr v \<Rightarrow> ([Fetch request], Inr (Parsed v))
                            | Inl m \<Rightarrow>
                                ([Fetch request, ConsoleError (substring0 200 tx)],
                                 Inl (OtherError (js ''Error'')
                                        (js ''Invalid JSON response from API: '' @ m)))))))"

definition getConversation :: "'j env \<Rightarrow> jsstring \<Rightarrow> 'j effect list \<times> (error + 'j)" where
  "getConversation env conversationId' =
     (case resolveConfig env of
        Inl e \<Rightarrow> ([], Inl e)
      | Inr config \<Rightarrow>
          (let request =
                 \<lparr>input = getApiUrl config (js ''/api/halap/conversations/'' @ conversationId'),
                  init_method = None, init_headers = getAuthHeaders config,
                  init_body = None, init_signal = None\<rparr>
           in case fetchFn env request of
                Inl e \<Rightarrow> ([Fetch request], Inl e)
              | Inr response \<Rightarrow>
                  if \<not> ok response then
                    ([Fetch request],
                     Inl (handleErrorResponse env response (js ''Failed to fetch conversation'')))
                  else
                    (case response_text response of
                       Inl e \<Rightarrow> ([Fetch request], Inl e)
                     | Inr tx \<Rightarrow>
                         (case JSON_parse env tx of
                            Inr v \<Rightarrow> ([Fetch request], Inr v)
                          | Inl m \<Rightarrow>
                              ([Fetch request, ConsoleError (substring0 200 tx)],
                               Inl (OtherError (js ''Error'')
                                      (js ''Invalid JSON response from API: '' @ m)))))))"

definition getBookArtifacts :: "'j env \<Rightarrow> jsstring \<Rightarrow> 'j effect list \<times> (error + 'j)" where
  "getBookArtifacts env messageId =
     (case resolveConfig env of
        Inl e \<Rightarrow> ([], Inl e)
      | Inr config \<Rightarrow>
          (let request =
                 \<lparr>input = getApiUrl config (js ''/api/halap/artifacts/books/'' @ messageId),
                  init_method = None, init_headers = getAuthHeaders config,
                  init_body = None, init_signal = None\<rparr>
           in case fetchFn env request of
                Inl e \<Rightarrow> ([Fetch request], Inl e)
              | Inr response \<Rightarrow>
                  if \<not> ok response then
                    ([Fetch request],
                     Inl (handleErrorResponse env response (js ''Failed to fetch book artifacts'')))
                  else ([Fetch request], response_json env response)))"

definition getMusicArtifacts :: "'j env \<Rightarrow> jsstring \<Rightarrow> 'j effect list \<times> (error + 'j)" where
  "getMusicArtifacts env messageId =
     (case resolveConfig env of
        Inl e \<Rightarrow> ([], Inl e)
      | Inr config \<Rightarrow>
          (let request =
                 \<lparr>input = getApiUrl config (js ''/api/halap/artifacts/music/'' @ messageId),
                  init_method = None, init_headers = getAuthHeaders config,
                  init_body = None, init_signal = None\<rparr>
           in case fetchFn env request of
                Inl e \<Rightarrow> ([Fetch request], Inl e)
              | Inr response \<Rightarrow>
                  if \<not> ok response then
                    ([Fetch request],
                     Inl (handleErrorResponse env response (js ''Failed to fetch music artifacts'')))
                  else ([Fetch request], response_json env response)))"

definition getBookPresentations :: "'j env \<Rightarrow> jsstring list \<Rightarrow> 'j effect list \<times> (error + 'j)" where
  "getBookPresentations env isbn13s =
     (if length isbn13s = 0 then
        ([], Inl (HalapiError (js ''At least one ISBN-13 is required'') None))
      else if length isbn13s > 100 then
        ([], Inl (HalapiError (js ''Maximum 100 ISBN-13s allowed per request'') None))
      else
        (case resolveConfig env of
           Inl e \<Rightarrow> ([], Inl e)
         | Inr config \<Rightarrow>
             (let request =
                    \<lparr>input = getApiUrl config (js ''/api/halap/books/presentations''),
                     init_method = Some (js ''POST''),
                     init_headers =
                       getAuthHeaders config @ [(js ''Content-Type'', js ''application/json'')],
                     init_body = Some (IsbnBody isbn13s), init_signal = None\<rparr>
              in case fetchFn env request of
                   Inl e \<Rightarrow> ([Fetch request], Inl e)
                 | Inr response \<Rightarrow>
                     if \<not> ok response then
                       ([Fetch request],
                        Inl (handleErrorResponse env response
                               (js ''Failed to fetch book presentations'')))
                     else ([Fetch request], response_json env response))))"

section \<open>The platform's JSON.stringify and JSON.parse\<close>

text \<open>
  \<open>JSON.parse\<close> (line 304) and the \<open>JSON.stringify\<close> that writes an event on the wire are
  the platform's, not code of this repository. They are written here after ECMA-262
  (\<open>SerializeJSONProperty\<close>, \<open>QuoteJSONString\<close>, the JSON grammar, \<open>CreateDataProperty\<close>),
  for the values that JSON has a text for: \<open>null\<close>, booleans, numbers, strings, arrays and
  plain objects. An object is the list of its own properties in the order of
  \<open>[[OwnPropertyKeys]]\<close>: array indices first, ascending, then the other keys as created.
  A number is a leaf of type \<open>'n\<close>: the decimal text of a finite number
  (\<open>Number::toString\<close>) and the number that a text of the JSON number grammar denotes are
  parameters of the two functions.
\<close>

datatype 'n number = Finite 'n | NaN | PosInfinity | NegInfinity

datatype 'n jsvalue =
    JSNull
  | JSBoolean bool
  | JSNumber "'n number"
  | JSString jsstring
  | JSArray "'n jsvalue list"
  | JSObject "(jsstring \<times> 'n jsvalue) list"

text \<open>
  \<open>QuoteJSONString\<close>: the two-character escapes for backspace, tab, line feed, form
  feed, carriage return, the double quote and the backslash; the escape \<open>u\<close> with four
  lowercase hexadecimal digits for the other code units below U+0020 and for a surrogate
  that is not part of a pair; every other code unit as it is.
\<close>

definition hex_digit :: "nat \<Rightarrow> code_unit" where
  "hex_digit n = (if n < 10 then of_nat (48 + n) else of_nat (87 + n))"

definition UnicodeEscape :: "code_unit \<Rightarrow> jsstring" where
  "UnicodeEscape c =
     [0x5C, 0x75, hex_digit (unat c div 4096), hex_digit (unat c div 256 mod 16),
      hex_digit (unat c div 16 mod 16), hex_digit (unat c mod 16)]"

definition is_leading_surrogate :: "code_unit \<Rightarrow> bool" where
  "is_leading_surrogate c = (0xD800 \<le> c \<and> c \<le> 0xDBFF)"

definition is_trailing_surrogate :: "code_unit \<Rightarrow> bool" where
  "is_trailing_surrogate c = (0xDC00 \<le> c \<and> c \<le> 0xDFFF)"

definition quote_unit :: "code_unit \<Rightarrow> jsstring" where
  "quote_unit c =
     (if c = 0x08 then [0x5C, 0x62]
      else if c = 0x09 then [0x5C, 0x74]
      else if c = 0x0A then [0x5C, 0x6E]
      else if c = 0x0C then [0x5C, 0x66]
      else if c = 0x0D then [0x5C, 0x72]
      else if c = 0x22 then [0x5C, 0x22]
      else if c = 0x5C then [0x5C, 0x5C]
      else if c < 0x20 \<or> is_leading_surrogate c \<or> is_trailing_surrogate c then UnicodeEscape c
      else [c])"

fun quote_units :: "jsstring \<Rightarrow> jsstring" where
  "quote_units [] = []"
| "quote_units [c] = quote_unit c"
| "quote_units (c # d # cs) =
     (if is_leading_surrogate c \<and> is_trailing_surrogate d then c # d # quote_units cs
      else quote_unit c @ quote_units (d # cs))"

definition QuoteJSONString :: "jsstring \<Rightarrow> jsstring" where
  "QuoteJSONString s = 0x22 # quote_units s @ [0x22]"

text \<open>
  \<open>JSON.stringify(value)\<close> with no replacer and no indentation: \<open>NaN\<close> and the infinities
  are written \<open>null\<close>, the elements of an array and the members of an object are
  separated by commas, with no white space.
\<close>

fun separate :: "jsstring list \<Rightarrow> jsstring" where
  "separate [] = []"
| "separate [x] = x"
| "separate (x # y # xs) = x @ 0x2C # separate (y # xs)"

fun JSON_stringify :: "('n \<Rightarrow> jsstring) \<Rightarrow> 'n jsvalue \<Rightarrow> jsstring" where
  "JSON_stringify number_text JSNull = js ''null''"
| "JSON_stringify number_text (JSBoolean b) = (if b then js ''true'' else js ''false'')"
| "JSON_stringify number_text (JSNumber n) =
     (case n of Finite x \<Rightarrow> number_text x | _ \<Rightarrow> js ''null'')"
| "JSON_stringify number_text (JSString s) = QuoteJSONString s"
| "JSON_stringify number_text (JSArray vs) =
     0x5B # separate (map (JSON_stringify number_text) vs) @ [0x5D]"
| "JSON_stringify number_text (JSObject ms) =
     0x7B # separate (map (\<lambda>(k, v). QuoteJSONString k @ 0x3A # JSON_stringify number_text v) ms)
       @ [0x7D]"

text \<open>
  The characters of a JSON string after its opening quote, up to the closing quote: a
  code unit below U+0020 is refused, a backslash starts one of the escapes of the
  grammar (the four hexadecimal digits of the escape \<open>u\<close> in either case).
\<close>

definition hex_value :: "code_unit \<Rightarrow> nat option" where
  "hex_value c =
     (if 0x30 \<le> c \<and> c \<le> 0x39 then Some (unat c - 48)
      else if 0x61 \<le> c \<and> c \<le> 0x66 then Some (unat c - 87)
      else if 0x41 \<le> c \<and> c \<le> 0x46 then Some (unat c - 55)
      else None)"

definition unescape :: "code_unit \<Rightarrow> code_unit option" where
  "unescape e =
     (if e = 0x22 then Some 0x22
      else if e = 0x5C then Some 0x5C
      else if e = 0x2F then Some 0x2F
      else if e = 0x62 then Some 0x08
      else if e = 0x66 then Some 0x0C
      else if e = 0x6E then Some 0x0A
      else if e = 0x72 then Some 0x0D
      else if e = 0x74 then Some 0x09
      else None)"

definition hex4 :: "nat \<Rightarrow> nat \<Rightarrow> nat \<Rightarrow> nat \<Rightarrow> code_unit" where
  "hex4 a b c d = of_nat (((a * 16 + b) * 16 + c) * 16 + d)"

fun parse_chars :: "jsstring \<Rightarrow> (jsstring \<times> jsstring) option" where
  "parse_chars [] = None"
| "parse_chars (c # cs) =
     (if c = 0x22 then Some ([], cs)
      else if c = 0x5C then
        (case cs of
           [] \<Rightarrow> None
         | e # cs' \<Rightarrow>
             if e = 0x75 then
               (case cs' of
                  h1 # h2 # h3 # h4 # cs'' \<Rightarrow>
                    (case (hex_value h1, hex_value h2, hex_value h3, hex_value h4) of
                       (Some a, Some b, Some c', Some d) \<Rightarrow>
                         (case parse_chars cs'' of
                            Some (s, rest) \<Rightarrow>
                              Some (hex4 a b c' d # s, rest)
                          | None \<Rightarrow> None)
                     | _ \<Rightarrow> None)
                | _ \<Rightarrow> None)
             else
               (case unescape e of
                  Some u \<Rightarrow>
                    (case parse_chars cs' of
                       Some (s, rest) \<Rightarrow> Some (u # s, rest)
                     | None \<Rightarrow> None)
                | None \<Rightarrow> None))
      else if c < 0x20 then None
      else
        (case parse_chars cs of
           Some (s, rest) \<Rightarrow> Some (c # s, rest)
         | None \<Rightarrow> None))"

text \<open>
  White space of the JSON grammar, and the code units that a number of the grammar is
  made of: a number token is the longest run of them, handed to the parameter
  \<open>number_of_text\<close>, which gives \<open>None\<close> for a run that is not a number of the grammar.
\<close>

definition is_whitespace :: "code_unit \<Rightarrow> bool" where
  "is_whitespace c = (c = 0x20 \<or> c = 0x09 \<or> c = 0x0A \<or> c = 0x0D)"

definition skip_whitespace :: "jsstring \<Rightarrow> jsstring" where
  "skip_whitespace s = dropWhile is_whitespace s"

definition number_char :: "code_unit \<Rightarrow> bool" where
  "number_char c =
     (0x30 \<le> c \<and> c \<le> 0x39 \<or> c = 0x2B \<or> c = 0x2D \<or> c = 0x2E \<or> c = 0x65 \<or> c = 0x45)"

text \<open>
  \<open>CreateDataProperty\<close> on the list of own properties: a key that is present keeps its
  place and takes the new value; a new array index (a canonical numeric string below
  \<open>2^32 - 1\<close>) goes among the array indices, in ascending order; any other new key goes
  last. \<open>key_before k l\<close> holds when \<open>k\<close> may come before \<open>l\<close> in that order.
\<close>

definition digits_value :: "jsstring \<Rightarrow> int" where
  "digits_value k = foldl (\<lambda>n c. 10 * n + (uint c - 48)) 0 k"

definition array_index :: "jsstring \<Rightarrow> int option" where
  "array_index k =
     (if k \<noteq> [] \<and> list_all (\<lambda>c. 0x30 \<le> c \<and> c \<le> 0x39) k \<and> (hd k \<noteq> 0x30 \<or> k = [0x30])
         \<and> digits_value k < 2 ^ 32 - 1
      then Some (digits_value k) else None)"

fun insert_index :: "int \<Rightarrow> jsstring \<times> 'v \<Rightarrow> (jsstring \<times> 'v) list \<Rightarrow> (jsstring \<times> 'v) list" where
  "insert_index i p [] = [p]"
| "insert_index i p (q # qs) =
     (case array_index (fst q) of
        Some j \<Rightarrow> if j < i then q # insert_index i p qs else p # q # qs
      | None \<Rightarrow> p # q # qs)"

definition CreateDataProperty :: "(jsstring \<times> 'v) list \<Rightarrow> jsstring \<Rightarrow> 'v \<Rightarrow> (jsstring \<times> 'v) list" where
  "CreateDataProperty ps k v =
     (if k \<in> fst ` set ps then map (\<lambda>q. if fst q = k then (k, v) else q) ps
      else case array_index k of
             Some i \<Rightarrow> insert_index i (k, v) ps
           | None \<Rightarrow> ps @ [(k, v)])"

definition key_before :: "jsstring \<Rightarrow> jsstring \<Rightarrow> bool" where
  "key_before k l =
     (case array_index l of
        Some j \<Rightarrow> (case array_index k of Some i \<Rightarrow> i < j | None \<Rightarrow> False)
      | None \<Rightarrow> True)"

definition create_properties :: "(jsstring \<times> 'v) list \<Rightarrow> (jsstring \<times> 'v) list" where
  "create_properties ms = foldl (\<lambda>ps (k, v). CreateDataProperty ps k v) [] ms"

text \<open>
  The JSON grammar by recursive descent; each function gives the value read and the rest
  of the text. A text is accepted by \<open>JSON.parse\<close> when it is one value between white
  space.
\<close>

function parse_value :: "(jsstring \<Rightarrow> 'n number option) \<Rightarrow> jsstring \<Rightarrow> ('n jsvalue \<times> jsstring) option"
  and parse_elements :: "(jsstring \<Rightarrow> 'n number option) \<Rightarrow> jsstring \<Rightarrow> ('n jsvalue list \<times> jsstring) option"
  and parse_members :: "(jsstring \<Rightarrow> 'n number option) \<Rightarrow> jsstring \<Rightarrow> ((jsstring \<times> 'n jsvalue) list \<times> jsstring) option"
where
  "parse_value number_of_text s =
     (case skip_whitespace s of
        [] \<Rightarrow> None
      | c # cs \<Rightarrow>
          if c = 0x7B then
            (case skip_whitespace cs of
               [] \<Rightarrow> None
             | d # ds \<Rightarrow>
                 if d = 0x7D then Some (JSObject [], ds)
                 else
                   (case parse_members number_of_text cs of
                      Some (ms, rest) \<Rightarrow> Some (JSObject (create_properties ms), rest)
                    | None \<Rightarrow> None))
          else if c = 0x5B then
            (case skip_whitespace cs of
               [] \<Rightarrow> None
             | d # ds \<Rightarrow>
                 if d = 0x5D then Some (JSArray [], ds)
                 else
                   (case parse_elements number_of_text cs of
                      Some (vs, rest) \<Rightarrow> Some (JSArray vs, rest)
                    | None \<Rightarrow> None))
          else if c = 0x22 then
            (case parse_chars cs of
               Some (str, rest) \<Rightarrow> Some (JSString str, rest)
             | None \<Rightarrow> None)
          else if take 4 (c # cs) = js ''true'' then Some (JSBoolean True, drop 4 (c # cs))
          else if take 5 (c # cs) = js ''false'' then Some (JSBoolean False, drop 5 (c # cs))
          else if take 4 (c # cs) = js ''null'' then Some (JSNull, drop 4 (c # cs))
          else if number_char c then
            (case number_of_text (takeWhile number_char (c # cs)) of
               Some n \<Rightarrow> Some (JSNumber n, dropWhile number_char (c # cs))
             | None \<Rightarrow> None)
          else None)"
| "parse_elements number_of_text s =
     (case parse_value number_of_text s of
        None \<Rightarrow> None
      | Some (v, rest) \<Rightarrow>
          if length rest < length s then
            (case skip_whitespace rest of
               [] \<Rightarrow> None
             | c # cs \<Rightarrow>
                 if c = 0x2C then
                   (case parse_elements number_of_text cs of
                      Some (vs, rest') \<Rightarrow> Some (v # vs, rest')
                    | None \<Rightarrow> None)
                 else if c = 0x5D then Some ([v], cs)
                 else None)
          else None)"
| "parse_members number_of_text s =
     (case skip_whitespace s of
        [] \<Rightarrow> None
      | c # cs \<Rightarrow>
          if c = 0x22 then
            (case parse_chars cs of
               None \<Rightarrow> None
             | Some (key, rest) \<Rightarrow>
                 (case skip_whitespace rest of
                    [] \<Rightarrow> None
                  | d # ds \<Rightarrow>
                      if d = 0x3A then
                        (case parse_value number_of_text ds of
                           None \<Rightarrow> None
                         | Some (v, rest') \<Rightarrow>
                             if length rest' < length ds then
                               (case skip_whitespace rest' of
                                  [] \<Rightarrow> None
                                | e # es \<Rightarrow>
                                    if e = 0x2C then
                                      (case parse_members number_of_text es of
                                         Some (ms, rest'') \<Rightarrow> Some ((key, v) # ms, rest'')
                                       | None \<Rightarrow> None)
                                    else if e = 0x7D then Some ([(key, v)], es)
                                    else None)
                             else None)
                      else None))
          else None)"
  by pat_completeness auto

termination
proof -
  have skip: "length cs < length s" if "skip_whitespace s = c # cs" for s :: jsstring and c cs
  proof -
    have "length (skip_whitespace s) \<le> length s"
      unfolding skip_whitespace_def by (rule length_dropWhile_le)
    with that show ?thesis by simp
  qed
  have chars: "length rest < length s" if "parse_chars s = Some (str, rest)" for s str rest
    using that
  proof (induction s arbitrary: str rest rule: parse_chars.induct)
    case 1
    then show ?case by simp
  next
    case (2 c cs)
    show ?case
      using "2.prems" "2.IH"
      by (fastforce split: if_splits list.splits option.splits prod.splits)
  qed
  show ?thesis
    by (relation "measure (\<lambda>x. case x of
            Inl (n, s) \<Rightarrow> 2 * length s
          | Inr (Inl (n, s)) \<Rightarrow> 2 * length s + 1
          | Inr (Inr (n, s)) \<Rightarrow> 2 * length s + 1)")
      (auto dest!: skip chars)
qed

definition JSON_parse_text :: "(jsstring \<Rightarrow> 'n number option) \<Rightarrow> jsstring \<Rightarrow> 'n jsvalue option" where
  "JSON_parse_text number_of_text s =
     (case parse_value number_of_text s of
        Some (v, rest) \<Rightarrow> if skip_whitespace rest = [] then Some v else None
      | None \<Rightarrow> None)"

text \<open>
  The values that have their own JSON text: every number in them is finite and its
  decimal text is a non-empty run of number characters that denotes that number again;
  the properties of every object are in the order of \<open>[[OwnPropertyKeys]]\<close>, without
  repetition.
\<close>

fun representable :: "(jsstring \<Rightarrow> 'n number option) \<Rightarrow> ('n \<Rightarrow> jsstring) \<Rightarrow> 'n jsvalue \<Rightarrow> bool" where
  "representable number_of_text number_text JSNull = True"
| "representable number_of_text number_text (JSBoolean b) = True"
| "representable number_of_text number_text (JSNumber n) =
     (case n of
        Finite x \<Rightarrow>
          number_text x \<noteq> [] \<and> list_all number_char (number_text x)
          \<and> number_of_text (number_text x) = Some (Finite x)
      | _ \<Rightarrow> False)"
| "representable number_of_text number_text (JSString s) = True"
| "representable number_of_text number_text (JSArray vs) =
     (\<forall>v\<in>set vs. representable number_of_text number_text v)"
| "representable number_of_text number_text (JSObject ms) =
     (distinct (map fst ms) \<and> sorted_wrt key_before (map fst ms)
      \<and> (\<forall>(k, v)\<in>set ms. representable number_of_text number_text v))"

text \<open>
  Two notions for the proofs: a rest of the text that would lengthen a number token, and
  the code units with which the text of a value begins.
\<close>

definition continues_number :: "jsstring \<Rightarrow> bool" where
  "continues_number rest = (case rest of [] \<Rightarrow> False | c # cs \<Rightarrow> number_char c)"

definition value_start :: "code_unit \<Rightarrow> bool" where
  "value_start c = (c \<in> {0x7B, 0x5B, 0x22, 0x74, 0x66, 0x6E} \<or> number_char c)"


section \<open>Concrete values for the scenarios\<close>

text \<open>
  The values below instantiate the parameters at concrete inputs. JSON values are trees;
  \<open>scenario_JSON_parse\<close> agrees with \<open>JSON.parse\<close> on the texts of the scenarios (the
  three event records of the specification, one more with a non-ASCII letter) and
  rejects the texts that are used as malformed ones.
\<close>

datatype json =
    JNull
  | JBool bool
  | JNumber int
  | JString jsstring
  | JArray "json list"
  | JObject "(jsstring \<times> json) list"

definition text_delta_Hi :: json where
  "text_delta_Hi =
     JObject [(js ''type'', JString (js ''text-delta'')),
              (js ''data'', JObject [(js ''delta'', JString (js ''Hi''))])]"

definition done_m1 :: json where
  "done_m1 =
     JObject [(js ''type'', JString (js ''done'')),
              (js ''data'',
               JObject [(js ''messageId'', JString (js ''m1'')),
                        (js ''conversationId'', JString (js ''c1'')),
                        (js ''totalTokens'',
                         JObject [(js ''input'', JNumber 1), (js ''output'', JNumber 2)]),
                        (js ''executionTimeMs'', JNumber 5)])]"

definition error_E :: json where
  "error_E =
     JObject [(js ''type'', JString (js ''error'')),
              (js ''data'',
               JObject [(js ''code'', JString (js ''E'')), (js ''message'', JString (js ''bad''))])]"

definition text_delta_e_acute :: json where
  "text_delta_e_acute =
     JObject [(js ''type'', JString (js ''text-delta'')),
              (js ''data'', JObject [(js ''delta'', JString [0xE9])])]"

definition text_delta_Hi_json :: string where
  \<open>text_delta_Hi_json = ''{"type":"text-delta","data":{"delta":"Hi"}}''\<close>

definition done_m1_json :: string where
  \<open>done_m1_json =
     ''{"type":"done","data":{"messageId":"m1","conversationId":"c1",''
     @ ''"totalTokens":{"input":1,"output":2},"executionTimeMs":5}}''\<close>

definition error_E_json :: string where
  \<open>error_E_json = ''{"type":"error","data":{"code":"E","message":"bad"}}''\<close>

definition text_delta_open_json :: string where
  \<open>text_delta_open_json = ''{"type":"text-delta","data":{"delta":"''\<close>

definition text_delta_close_json :: string where
  \<open>text_delta_close_json = ''"}}''\<close>

definition text_delta_e_acute_json :: jsstring where
  "text_delta_e_acute_json = js text_delta_open_json @ [0xE9] @ js text_delta_close_json"

definition scenario_JSON_parse :: "jsstring \<Rightarrow> jsstring + json" where
  "scenario_JSON_parse tx =
     (if tx = js text_delta_Hi_json then Inr text_delta_Hi
      else if tx = js done_m1_json then Inr done_m1
      else if tx = js error_E_json then Inr error_E
      else if tx = text_delta_e_acute_json then Inr text_delta_e_acute
      else Inl (js ''Unexpected token''))"

text \<open>\<open>errorData.error?.message\<close> on a tree, when it is a non-empty string.\<close>

fun scenario_error_message :: "json \<Rightarrow> jsstring option" where
  "scenario_error_message (JObject members) =
     (case map_of members (js ''error'') of
        Some (JObject emembers) \<Rightarrow>
          (case map_of emembers (js ''message'') of
             Some (JString m) \<Rightarrow> if m \<noteq> [] then Some m else None
           | _ \<Rightarrow> None)
      | _ \<Rightarrow> None)"
| "scenario_error_message _ = None"

text \<open>A query string for names and values that need no escaping.\<close>

fun scenario_URLSearchParams_toString :: "(jsstring \<times> jsstring) list \<Rightarrow> jsstring" where
  "scenario_URLSearchParams_toString [] = []"
| "scenario_URLSearchParams_toString [(n, v)] = n @ js ''='' @ v"
| "scenario_URLSearchParams_toString ((n, v) # ps) =
     n @ js ''='' @ v @ js ''&'' @ scenario_URLSearchParams_toString ps"

text \<open>
  A client with the configuration of the README's example, whose transport answers
  every request with the given response.
\<close>

definition scenario_config :: HalapiConfig where
  "scenario_config = \<lparr>apiUrl = js ''https://api.example.com'', apiToken = js ''your-token''\<rparr>"

definition scenario_env :: "HalapiConfig \<Rightarrow> Response \<Rightarrow> json env" where
  "scenario_env config response =
     \<lparr>getConfig = Inr config,
      fetchFn = (\<lambda>_. Inr response),
      JSON_parse = scenario_JSON_parse,
      error_message = scenario_error_message,
      URLSearchParams_toString = scenario_URLSearchParams_toString,
      toISOString_now = js ''2026-01-01T00:00:00.000Z'',
      Number_toString = String_nat\<rparr>"

definition scenario_response :: "read_result list option \<Rightarrow> Response" where
  "scenario_response reads =
     \<lparr>ok = True, status = 200,
      headers_get = map_of [(js ''X-Conversation-Id'', js ''c9''), (js ''X-Message-Id'', js ''m9'')],
      body = reads\<rparr>"

definition scenario_options :: "json ChatStreamOptions" where
  "scenario_options =
     \<lparr>query = js ''Hello!'', conversationId = None, externalUserId = None,
      metadata = None, signal = None\<rparr>"

text \<open>The UTF-8 bytes of an ASCII text.\<close>

definition ascii :: "string \<Rightarrow> byte list" where
  "ascii s = map of_char s"

text \<open>
  A platform for the round trip of an event through its JSON text. Numbers are the
  integers: \<open>scenario_Number_toString\<close> writes their decimal digits, as
  \<open>Number::toString\<close> does for the integers below \<open>10^21\<close>, and \<open>scenario_number_of_text\<close>
  reads the integers of the JSON grammar (it knows no fraction and no exponent).
  \<open>JSON_error_message\<close> is \<open>errorData.error?.message\<close> on a value, when it is a non-empty
  string.
\<close>

definition scenario_Number_toString :: "int \<Rightarrow> jsstring" where
  "scenario_Number_toString n =
     (if n < 0 then 0x2D # String_nat (nat (- n)) else String_nat (nat n))"

definition scenario_number_of_text :: "jsstring \<Rightarrow> int number option" where
  "scenario_number_of_text tok =
     (let digits = (case tok of [] \<Rightarrow> [] | c # cs \<Rightarrow> if c = 0x2D then cs else tok) in
      if digits \<noteq> [] \<and> list_all (\<lambda>c. 0x30 \<le> c \<and> c \<le> 0x39) digits
         \<and> (hd digits \<noteq> 0x30 \<or> digits = [0x30])
      then Some (Finite (if digits = tok then digits_value digits else - digits_value digits))
      else None)"

fun JSON_error_message :: "'n jsvalue \<Rightarrow> jsstring option" where
  "JSON_error_message (JSObject members) =
     (case map_of members (js ''error'') of
        Some (JSObject emembers) \<Rightarrow>
          (case map_of emembers (js ''message'') of
             Some (JSString m) \<Rightarrow> if m \<noteq> [] then Some m else None
           | _ \<Rightarrow> None)
      | _ \<Rightarrow> None)"
| "JSON_error_message _ = None"

definition scenario_JSON_env :: "HalapiConfig \<Rightarrow> Response \<Rightarrow> int jsvalue env" where
  "scenario_JSON_env config response =
     \<lparr>getConfig = Inr config,
      fetchFn = (\<lambda>_. Inr response),
      JSON_parse =
        (\<lambda>tx. case JSON_parse_text scenario_number_of_text tx of
                Some v \<Rightarrow> Inr v
              | None \<Rightarrow> Inl (js ''Unexpected token'')),
      error_message = JSON_error_message,
      URLSearchParams_toString = scenario_URLSearchParams_toString,
      toISOString_now = js ''2026-01-01T00:00:00.000Z'',
      Number_toString = String_nat\<rparr>"

definition scenario_JSON_options :: "int jsvalue ChatStreamOptions" where
  "scenario_JSON_options =
     \<lparr>query = js ''Hello!'', conversationId = None, externalUserId = None,
      metadata = None, signal = None\<rparr>"

text \<open>
  The \<open>done\<close> event of the specification as a value, and the same event with an execution
  time that is not a number, before and after its passage through JSON.
\<close>

definition done_m1_value :: "int jsvalue" where
  "done_m1_value =
     JSObject [(js ''type'', JSString (js ''done'')),
               (js ''data'',
                JSObject [(js ''messageId'', JSString (js ''m1'')),
                          (js ''conversationId'', JSString (js ''c1'')),
                          (js ''totalTokens'',
                           JSObject [(js ''input'', JSNumber (Finite 1)),
                                     (js ''output'', JSNumber (Finite 2))]),
                          (js ''executionTimeMs'', JSNumber (Finite 5))])]"

definition done_NaN :: "int jsvalue" where
  "done_NaN =
     JSObject [(js ''type'', JSString (js ''done'')),
               (js ''data'',
                JSObject [(js ''messageId'', JSString (js ''m1'')),
                          (js ''conversationId'', JSString (js ''c1'')),
                          (js ''executionTimeMs'', JSNumber NaN)])]"

definition done_null :: "int jsvalue" where
  "done_null =
     JSObject [(js ''type'', JSString (js ''done'')),
               (js ''data'',
                JSObject [(js ''messageId'', JSString (js ''m1'')),
                          (js ''conversationId'', JSString (js ''c1'')),
                          (js ''executionTimeMs'', JSNull)])]"

definition done_null_json :: string where
  \<open>done_null_json =
     ''{"type":"done","data":{"messageId":"m1","conversationId":"c1","executionTimeMs":null}}''\<close>


section \<open>Properties of the decoding loop\<close>


lemma decode_append:
  "decode d (a @ b) = (let (t1, d1) = decode d a; (t2, d2) = decode d1 b in (t1 @ t2, d2))"
  by (induction a arbitrary: d) (auto split: prod.splits)

lemma split_on_not_Nil [simp]: "split_on sep s \<noteq> []"
  by (induction s) (auto split: list.splits)

lemma split_on_no_sep: "sep \<notin> set s \<Longrightarrow> split_on sep s = [s]"
  by (induction s) auto

lemma split_on_append:
  "split_on sep (a @ b) =
     butlast (split_on sep a) @ [last (split_on sep a) @ hd (split_on sep b)] @ tl (split_on sep b)"
proof (induction a)
  case Nil
  then show ?case by (cases "split_on sep b") auto
next
  case (Cons c a)
  then show ?case
    by (cases "split_on sep a"; cases "split_on sep (a @ b)"; cases "butlast (split_on sep a)") (auto split: if_splits)
qed

lemma split_on_sep_append:
  "split_on sep (a @ sep # b) = split_on sep a @ split_on sep b"
  by (simp add: split_on_append)

lemma pop_split: "pop (split_on sep s) = (Some (last (split_on sep s)), butlast (split_on sep s))"
  by (cases "split_on sep s") auto

lemma for_lines_None_snd: "snd (for_lines parse ls None) = (None, False)"
  by (induction ls) (auto split: sum.splits prod.splits)

lemma for_lines_None: "for_lines parse ls None = (fst (for_lines parse ls None), None, False)"
  using for_lines_None_snd [of parse ls] by (cases "for_lines parse ls None") simp

lemma for_lines_None_append:
  "for_lines parse (xs @ ys) None =
     (fst (for_lines parse xs None) @ fst (for_lines parse ys None), None, False)"
  by (induction xs) (auto split: sum.splits prod.splits simp: for_lines_None [symmetric])

lemma split_on_segments: "seg \<in> set (split_on sep s) \<Longrightarrow> sep \<notin> set seg"
  by (induction s arbitrary: seg) (auto split: if_splits list.splits)

lemma split_on_last_append:
  "split_on sep (a @ b) = butlast (split_on sep a) @ split_on sep (last (split_on sep a) @ b)"
proof -
  have "sep \<notin> set (last (split_on sep a))"
    by (rule split_on_segments [of _ sep a]) simp
  then have "split_on sep (last (split_on sep a)) = [last (split_on sep a)]"
    by (rule split_on_no_sep)
  then have "split_on sep (last (split_on sep a) @ b) =
        [last (split_on sep a) @ hd (split_on sep b)] @ tl (split_on sep b)"
    by (simp add: split_on_append [of sep "last (split_on sep a)" b])
  then show ?thesis
    by (simp add: split_on_append [of sep a b])
qed

lemma butlast_split_on_append:
  "butlast (split_on sep (a @ b)) =
     butlast (split_on sep a) @ butlast (split_on sep (last (split_on sep a) @ b))"
  by (simp add: split_on_last_append [of sep a b] butlast_append)

lemma read_loop_None:
  "LF \<notin> set buf \<Longrightarrow> read_loop parse (map Chunk cs) d buf None =
     (fst (for_lines parse (butlast (split_on LF (buf @ fst (decode d (concat cs))))) None), Finished)"
proof (induction cs arbitrary: d buf)
  case Nil
  then show ?case by (simp add: split_on_no_sep)
next
  case (Cons c cs)
  have nolf: "LF \<notin> set (last (split_on LF (buf @ tx)))" for tx
    by (rule split_on_segments [of _ LF "buf @ tx"]) simp
  obtain tx d' where dec: "decode d c = (tx, d')" by (cases "decode d c") 
  have "decode d (c @ concat cs) = (tx @ fst (decode d' (concat cs)), snd (decode d' (concat cs)))"
    by (simp add: decode_append dec split: prod.splits)
  then have whole: "fst (decode d (concat (c # cs))) = tx @ fst (decode d' (concat cs))"
    by simp
  have lines: "butlast (split_on LF (buf @ tx @ fst (decode d' (concat cs)))) =
      butlast (split_on LF (buf @ tx)) @
      butlast (split_on LF (last (split_on LF (buf @ tx)) @ fst (decode d' (concat cs))))"
    using butlast_split_on_append [of LF "buf @ tx" "fst (decode d' (concat cs))"] by simp
  obtain tr where fl: "for_lines parse (butlast (split_on LF (buf @ tx))) None = (tr, None, False)"
    using for_lines_None by blast
  have "read_loop parse (map Chunk (c # cs)) d buf None =
      (tr @
       fst (for_lines parse (butlast (split_on LF (last (split_on LF (buf @ tx)) @
              fst (decode d' (concat cs))))) None), Finished)"
    using fl by (simp add: dec pop_split Cons.IH [OF nolf])
  then show ?case
    unfolding whole lines for_lines_None_append by (simp add: fl)
qed


lemma split_on_terminated:
  "(\<And>l. l \<in> set ls \<Longrightarrow> sep \<notin> set l) \<Longrightarrow> sep \<notin> set tail \<Longrightarrow>
   split_on sep (concat (map (\<lambda>l. l @ [sep]) ls) @ tail) = ls @ [tail]"
proof (induction ls)
  case Nil
  then show ?case by (simp add: split_on_no_sep)
next
  case (Cons l ls)
  have "split_on sep ((l @ sep # concat (map (\<lambda>l. l @ [sep]) ls)) @ tail) =
        split_on sep l @ split_on sep (concat (map (\<lambda>l. l @ [sep]) ls) @ tail)"
    using split_on_sep_append [of sep l "concat (map (\<lambda>l. l @ [sep]) ls) @ tail"] by simp
  with Cons show ?case by (simp add: split_on_no_sep)
qed

lemma chatStream_decoding:
  assumes "getConfig env = Inr config" and "isConfigValid config"
    and "fetchFn env (chatStream_request config options) = Inr response" and "ok response"
    and "body response = Some reads"
  shows "chatStream env options k =
     (Fetch (chatStream_request config options)
        # fst (read_loop (JSON_parse env) reads new_TextDecoder [] k) @ [ReleaseLock],
      case snd (read_loop (JSON_parse env) reads new_TextDecoder [] k) of
        Finished \<Rightarrow> Returned (ChatStreamResult (headers_get response (js ''X-Conversation-Id''))
                                (headers_get response (js ''X-Message-Id'')))
      | Left \<Rightarrow> Abandoned
      | Raised e \<Rightarrow> Threw e)"
  using assms by (simp add: chatStream_def resolveConfig_def split: prod.splits)

lemma chatStream_chunks:
  assumes "getConfig env = Inr config" and "isConfigValid config"
    and "fetchFn env (chatStream_request config options) = Inr response" and "ok response"
    and "body response = Some (map Chunk chunks)"
    and "fst (decode new_TextDecoder (concat chunks)) = concat (map (\<lambda>l. l @ [LF]) ls) @ tail"
    and "\<And>l. l \<in> set ls \<Longrightarrow> LF \<notin> set l" and "LF \<notin> set tail"
  shows "chatStream env options None =
     (Fetch (chatStream_request config options)
        # fst (for_lines (JSON_parse env) ls None) @ [ReleaseLock],
      Returned (ChatStreamResult (headers_get response (js ''X-Conversation-Id''))
                                (headers_get response (js ''X-Message-Id''))))"
proof -
  have "read_loop (JSON_parse env) (map Chunk chunks) new_TextDecoder [] None =
      (fst (for_lines (JSON_parse env) ls None), Finished)"
    using read_loop_None [of "[]" "JSON_parse env" chunks new_TextDecoder] assms(6-8)
    by (simp add: split_on_terminated)
  then show ?thesis
    using chatStream_decoding [OF assms(1-5), of None] by simp
qed


lemma for_lines_records:
  "list_all2 (\<lambda>p e. parse p = Inr e) payloads events \<Longrightarrow>
   for_lines parse (map (\<lambda>p. js ''data: '' @ p) payloads) None = (map Yield events, None, False)"
  by (induction payloads events rule: list_all2_induct)
     (simp_all add: startsWith_def slice_def js_def)

lemma emitted_append: "emitted (tr @ tr') = emitted tr @ emitted tr'"
  by (induction tr rule: emitted.induct) simp_all

lemma emitted_map_Yield: "emitted (map Yield es) = es"
  by (induction es) simp_all

lemma for_lines_skip:
  "parse bad = Inl m \<Longrightarrow>
   for_lines parse ((js ''data: '' @ bad) # rest) None =
     (Warn (js ''data: '' @ bad) # fst (for_lines parse rest None), None, False)"
  using for_lines_None [of parse rest]
  by (cases "for_lines parse rest None") (simp add: startsWith_def slice_def js_def)

lemma for_lines_member:
  "js ''data: '' @ p \<in> set ls \<Longrightarrow> parse p = Inr e \<Longrightarrow>
   e \<in> set (emitted (fst (for_lines parse ls None)))"
proof (induction ls)
  case Nil
  then show ?case by simp
next
  case (Cons l ls)
  obtain tr where tr: "for_lines parse ls None = (tr, None, False)"
    using for_lines_None by blast
  show ?case
  proof (cases "l = js ''data: '' @ p")
    case True
    with Cons.prems tr show ?thesis
      by (simp add: startsWith_def slice_def js_def)
  next
    case False
    with Cons have "e \<in> set (emitted tr)" by (simp add: tr)
    then show ?thesis
      by (simp add: tr split: sum.splits)
  qed
qed

lemma for_lines_no_release: "releases (fst (for_lines parse ls k)) = 0"
  by (induction ls arbitrary: k)
     (simp_all add: split_beta Let_def split: sum.splits option.splits nat.splits)

lemma for_lines_no_request: "requests (fst (for_lines parse ls k)) = []"
  by (induction ls arbitrary: k)
     (simp_all add: split_beta Let_def split: sum.splits option.splits nat.splits)

lemma releases_append: "releases (tr @ tr') = releases tr + releases tr'"
  by (induction tr rule: releases.induct) simp_all

lemma requests_append: "requests (tr @ tr') = requests tr @ requests tr'"
  by (induction tr rule: requests.induct) simp_all

lemma read_loop_no_release: "releases (fst (read_loop parse reads d buf k)) = 0"
proof (induction reads arbitrary: d buf k)
  case Nil
  then show ?case by simp
next
  case (Cons r reads)
  then show ?case
    by (cases r) (simp_all add: releases_append for_lines_no_release split_beta Let_def)
qed

lemma read_loop_no_request: "requests (fst (read_loop parse reads d buf k)) = []"
proof (induction reads arbitrary: d buf k)
  case Nil
  then show ?case by simp
next
  case (Cons r reads)
  then show ?case
    by (cases r) (simp_all add: requests_append for_lines_no_request split_beta Let_def)
qed

lemma for_lines_Some:
  "emitted (fst (for_lines parse ls (Some n))) =
     take (Suc n) (emitted (fst (for_lines parse ls None)))
   \<and> snd (snd (for_lines parse ls (Some n))) =
       (n < length (emitted (fst (for_lines parse ls None))))
   \<and> (\<not> snd (snd (for_lines parse ls (Some n))) \<longrightarrow>
        fst (snd (for_lines parse ls (Some n))) =
          Some (n - length (emitted (fst (for_lines parse ls None)))))
   \<and> (snd (snd (for_lines parse ls (Some n))) \<longrightarrow>
        (\<exists>tr e. fst (for_lines parse ls (Some n)) = tr @ [Yield e]))"
proof (induction ls arbitrary: n)
  case Nil
  then show ?case by simp
next
  case (Cons l ls)
  show ?case
  proof (cases "startsWith l (js ''data: '')")
    case False
    with Cons show ?thesis by simp
  next
    case True
    show ?thesis
    proof (cases "parse (slice 6 l)")
      case (Inl m)
      with True Cons [of n] show ?thesis
        by (simp add: split_beta Let_def) (metis append_Cons)
    next
      case (Inr e)
      show ?thesis
      proof (cases n)
        case 0
        with True Inr show ?thesis by (simp add: split_beta Let_def)
      next
        case (Suc n')
        with True Inr Cons [of n'] show ?thesis
          by (simp add: split_beta Let_def) (metis append_Cons)
      qed
    qed
  qed
qed

lemma read_loop_Some:
  "emitted (fst (read_loop parse reads d buf (Some n))) =
     take (Suc n) (emitted (fst (read_loop parse reads d buf None)))
   \<and> (snd (read_loop parse reads d buf (Some n)) = Left \<longrightarrow>
        length (emitted (fst (read_loop parse reads d buf (Some n)))) = Suc n
        \<and> (\<exists>tr e. fst (read_loop parse reads d buf (Some n)) = tr @ [Yield e]))"
proof (induction reads arbitrary: d buf n)
  case Nil
  then show ?case by simp
next
  case (Cons r reads)
  show ?case
  proof (cases r)
    case (ReadFails e)
    then show ?thesis by simp
  next
    case (Chunk val)
    obtain tx d' where dec: "decode d val = (tx, d')" by (cases "decode d val")
    let ?ls = "butlast (split_on LF (buf @ tx))"
    let ?buf = "last (split_on LF (buf @ tx))"
    let ?E = "emitted (fst (for_lines parse ?ls None))"
    obtain tr0 where none: "for_lines parse ?ls None = (tr0, None, False)"
      using for_lines_None by blast
    note fl = for_lines_Some [of parse ?ls n]
    show ?thesis
    proof (cases "snd (snd (for_lines parse ?ls (Some n)))")
      case True
      with fl obtain tr e where tr: "fst (for_lines parse ?ls (Some n)) = tr @ [Yield e]"
        by blast
      from True fl have len: "n < length ?E" by simp
      from True have "read_loop parse (r # reads) d buf (Some n) =
          (fst (for_lines parse ?ls (Some n)), Left)"
        by (simp add: Chunk dec pop_split split_beta)
      moreover have "read_loop parse (r # reads) d buf None =
          (tr0 @ fst (read_loop parse reads d' ?buf None), snd (read_loop parse reads d' ?buf None))"
        by (simp add: Chunk dec pop_split none split_beta)
      ultimately show ?thesis
        using fl len tr none by (simp add: emitted_append)
    next
      case False
      with fl have len: "length ?E \<le> n"
        and k': "fst (snd (for_lines parse ?ls (Some n))) = Some (n - length ?E)"
        by simp_all
      from fl len have same: "emitted (fst (for_lines parse ?ls (Some n))) = ?E" by simp
      from False k' have some: "read_loop parse (r # reads) d buf (Some n) =
          (fst (for_lines parse ?ls (Some n)) @ fst (read_loop parse reads d' ?buf (Some (n - length ?E))),
           snd (read_loop parse reads d' ?buf (Some (n - length ?E))))"
        by (simp add: Chunk dec pop_split split_beta)
      have non: "read_loop parse (r # reads) d buf None =
          (tr0 @ fst (read_loop parse reads d' ?buf None), snd (read_loop parse reads d' ?buf None))"
        by (simp add: Chunk dec pop_split none split_beta)
      note IH = Cons.IH [of d' ?buf "n - length ?E"]
      have take: "take (Suc n) (?E @ xs) = ?E @ take (Suc (n - length ?E)) xs" for xs
        using len by (simp add: Suc_diff_le)
      show ?thesis
        unfolding some non using IH same len none
        by (auto simp add: emitted_append Suc_diff_le)
    qed
  qed
qed

lemma read_loop_None_exit: "snd (read_loop parse reads d buf None) \<noteq> Left"
proof (induction reads arbitrary: d buf)
  case Nil
  then show ?case by simp
next
  case (Cons r reads)
  then show ?case
    by (cases r) (simp_all add: split_beta Let_def for_lines_None_snd)
qed

lemma handleErrorResponse_status:
  "\<exists>m. handleErrorResponse env response context = HalapiError m (Some (status response))"
  by (simp add: handleErrorResponse_def Let_def)

lemma resolveConfig_error:
  "resolveConfig env = Inl e \<Longrightarrow>
   e = HalapiError (js ''API token not configured'') None \<or> getConfig env = Inl e"
  by (auto simp: resolveConfig_def split: sum.splits if_splits)

lemma read_all_error: "read_all reads = Inl e \<Longrightarrow> ReadFails e \<in> set reads"
proof (induction reads)
  case Nil
  then show ?case by simp
next
  case (Cons r reads)
  then show ?case by (cases r) (auto split: sum.splits)
qed

lemma response_text_error:
  "response_text response = Inl e \<Longrightarrow>
   \<exists>reads. body response = Some reads \<and> ReadFails e \<in> set reads"
  by (auto simp: response_text_def split: option.splits sum.splits dest: read_all_error)

lemma read_loop_error:
  "snd (read_loop parse reads d buf k) = Raised e \<Longrightarrow> ReadFails e \<in> set reads"
proof (induction reads arbitrary: d buf k)
  case Nil
  then show ?case by simp
next
  case (Cons r reads)
  then show ?case
    by (cases r) (auto simp: split_beta Let_def split: if_splits)
qed

text \<open>
  A successful response whose body is not JSON: \<open>getConversations\<close> and \<open>getConversation\<close>
  log the start of the text and raise a plain \<open>Error\<close> with the parser's message.
\<close>

lemma getConversation_invalid_JSON:
  assumes "resolveConfig env = Inr config" and "\<And>r. fetchFn env r = Inr response"
    and "ok response" and "response_text response = Inr tx" and "JSON_parse env tx = Inl m"
  shows "snd (getConversation env c) =
           Inl (OtherError (js ''Error'') (js ''Invalid JSON response from API: '' @ m))"
    and "tx \<noteq> [] \<Longrightarrow> trim tx \<noteq> [] \<Longrightarrow>
         snd (getConversations env u l) =
           Inl (OtherError (js ''Error'') (js ''Invalid JSON response from API: '' @ m))"
  using assms by (simp_all add: getConversation_def getConversations_def Let_def)

lemma response_json_error:
  "response_json env response = Inl e \<Longrightarrow>
   (\<exists>reads. body response = Some reads \<and> ReadFails e \<in> set reads) \<or>
   (\<exists>tx m. response_text response = Inr tx \<and> JSON_parse env tx = Inl m \<and>
      e = OtherError (js ''SyntaxError'') m)"
  by (auto simp: response_json_def split: sum.splits dest: response_text_error)

lemma chatStream_error:
  assumes "snd (chatStream env options k) = Threw e"
  shows "resolveConfig env = Inl e \<or>
    (\<exists>r. requests (fst (chatStream env options k)) = [r] \<and>
      (fetchFn env r = Inl e \<or>
       (\<exists>response. fetchFn env r = Inr response \<and>
          (\<not> ok response \<and> e = handleErrorResponse env response (js ''Chat stream failed'') \<or>
           ok response \<and> body response = None \<and>
             e = HalapiError (js ''Response body is not readable'') None \<or>
           ok response \<and> (\<exists>reads. body response = Some reads \<and> ReadFails e \<in> set reads)))))"
proof (cases "resolveConfig env")
  case (Inl e')
  with assms show ?thesis by (simp add: chatStream_def)
next
  case config: (Inr config)
  let ?r = "chatStream_request config options"
  have sent: "requests (fst (chatStream env options k)) = [?r]"
    using config
    by (simp add: chatStream_def Let_def split_beta requests_append read_loop_no_request
          split: sum.splits option.splits)
  show ?thesis
  proof (cases "fetchFn env ?r")
    case (Inl e')
    with assms config have "e' = e" by (simp add: chatStream_def)
    with Inl sent show ?thesis by simp
  next
    case (Inr response)
    show ?thesis
    proof (cases "ok response")
      case False
      with assms config Inr have "e = handleErrorResponse env response (js ''Chat stream failed'')"
        by (simp add: chatStream_def)
      with Inr False sent show ?thesis by simp
    next
      case True
      show ?thesis
      proof (cases "body response")
        case None
        with assms config Inr True
        have "e = HalapiError (js ''Response body is not readable'') None"
          by (simp add: chatStream_def)
        with Inr True None sent show ?thesis by simp
      next
        case (Some reads)
        with assms config Inr True
        have "snd (read_loop (JSON_parse env) reads new_TextDecoder [] k) = Raised e"
          by (simp add: chatStream_def split_beta split: loop_exit.splits)
        then have "ReadFails e \<in> set reads" by (rule read_loop_error)
        with Inr True Some sent show ?thesis by simp
      qed
    qed
  qed
qed

lemma accessor_error:
  assumes run: "run =
      (case resolveConfig env of
         Inl e \<Rightarrow> ([], Inl e)
       | Inr config \<Rightarrow>
           (case fetchFn env (req config) of
              Inl e \<Rightarrow> ([Fetch (req config)], Inl e)
            | Inr response \<Rightarrow>
                if \<not> ok response then
                  ([Fetch (req config)], Inl (handleErrorResponse env response ctx))
                else rest (req config) response))"
    and rest: "\<And>r response. requests (fst (rest r response)) = [r]"
    and e: "snd run = Inl e"
  shows "resolveConfig env = Inl e \<or>
    (\<exists>r. requests (fst run) = [r] \<and>
      (fetchFn env r = Inl e \<or>
       (\<exists>response. fetchFn env r = Inr response \<and>
          (\<not> ok response \<and> e = handleErrorResponse env response ctx \<or>
           ok response \<and> snd (rest r response) = Inl e))))"
proof (cases "resolveConfig env")
  case (Inl e')
  with e show ?thesis by (simp add: run)
next
  case config: (Inr config)
  show ?thesis
  proof (cases "fetchFn env (req config)")
    case (Inl e')
    with e config show ?thesis by (simp add: run)
  next
    case (Inr response)
    with e config rest [of "req config" response] show ?thesis
      by (cases "ok response") (simp_all add: run)
  qed
qed

lemma getConversations_error:
  assumes "snd (getConversations env u l) = Inl e"
  shows "resolveConfig env = Inl e \<or>
    (\<exists>r. requests (fst (getConversations env u l)) = [r] \<and>
      (fetchFn env r = Inl e \<or>
       (\<exists>response. fetchFn env r = Inr response \<and>
          (\<not> ok response \<and>
             e = handleErrorResponse env response (js ''Failed to fetch conversations'') \<or>
           ok response \<and> response_text response = Inl e \<or>
           ok response \<and> (\<exists>tx m. response_text response = Inr tx \<and> JSON_parse env tx = Inl m \<and>
              e = OtherError (js ''Error'') (js ''Invalid JSON response from API: '' @ m))))))"
proof -
  let ?req = "\<lambda>config.
      \<lparr>input = getApiUrl config
                 (js ''/api/halap/conversations?'' @
                  URLSearchParams_toString env
                    (case u of
                       None \<Rightarrow>
                         [(js ''limit'',
                           Number_toString env (case l of None \<Rightarrow> 20 | Some n \<Rightarrow> n))]
                     | Some u \<Rightarrow>
                         if u \<noteq> [] then
                           [(js ''limit'',
                             Number_toString env (case l of None \<Rightarrow> 20 | Some n \<Rightarrow> n))]
                           @ [(js ''externalUserId'', u)]
                         else
                           [(js ''limit'',
                             Number_toString env (case l of None \<Rightarrow> 20 | Some n \<Rightarrow> n))])),
       init_method = None, init_headers = getAuthHeaders config,
       init_body = None, init_signal = None\<rparr> :: 'a Request"
  let ?rest = "\<lambda>request response.
      (case response_text response of
         Inl e \<Rightarrow> ([Fetch request], Inl e)
       | Inr tx \<Rightarrow>
           if tx = [] \<or> trim tx = [] then
             ([Fetch request], Inr (EmptyConversationsList (toISOString_now env)))
           else
             (case JSON_parse env tx of
                Inr v \<Rightarrow> ([Fetch request], Inr (Parsed v))
              | Inl m \<Rightarrow>
                  ([Fetch request, ConsoleError (substring0 200 tx)],
                   Inl (OtherError (js ''Error'')
                          (js ''Invalid JSON response from API: '' @ m)))))"
  have run: "getConversations env u l =
      (case resolveConfig env of
         Inl e \<Rightarrow> ([], Inl e)
       | Inr config \<Rightarrow>
           (case fetchFn env (?req config) of
              Inl e \<Rightarrow> ([Fetch (?req config)], Inl e)
            | Inr response \<Rightarrow>
                if \<not> ok response then
                  ([Fetch (?req config)],
                   Inl (handleErrorResponse env response (js ''Failed to fetch conversations'')))
                else ?rest (?req config) response))"
    by (cases "resolveConfig env") (simp_all add: getConversations_def Let_def)
  have rest: "requests (fst (?rest r response)) = [r]" for r response
    by (simp split: sum.splits)
  have last: "response_text response = Inl e \<or>
      (\<exists>tx m. response_text response = Inr tx \<and> JSON_parse env tx = Inl m \<and>
         e = OtherError (js ''Error'') (js ''Invalid JSON response from API: '' @ m))"
    if "snd (?rest r response) = Inl e" for r response
    using that by (auto split: sum.splits if_splits)
  from accessor_error [where rest = ?rest and req = ?req, OF run rest assms] last
  show ?thesis by blast
qed

lemma getConversation_error:
  assumes "snd (getConversation env c) = Inl e"
  shows "resolveConfig env = Inl e \<or>
    (\<exists>r. requests (fst (getConversation env c)) = [r] \<and>
      (fetchFn env r = Inl e \<or>
       (\<exists>response. fetchFn env r = Inr response \<and>
          (\<not> ok response \<and>
             e = handleErrorResponse env response (js ''Failed to fetch conversation'') \<or>
           ok response \<and> response_text response = Inl e \<or>
           ok response \<and> (\<exists>tx m. response_text response = Inr tx \<and> JSON_parse env tx = Inl m \<and>
              e = OtherError (js ''Error'') (js ''Invalid JSON response from API: '' @ m))))))"
proof -
  let ?req = "\<lambda>config.
      \<lparr>input = getApiUrl config (js ''/api/halap/conversations/'' @ c),
       init_method = None, init_headers = getAuthHeaders config,
       init_body = None, init_signal = None\<rparr> :: 'a Request"
  let ?rest = "\<lambda>request response.
      (case response_text response of
         Inl e \<Rightarrow> ([Fetch request], Inl e)
       | Inr tx \<Rightarrow>
           (case JSON_parse env tx of
              Inr v \<Rightarrow> ([Fetch request], Inr v)
            | Inl m \<Rightarrow>
                ([Fetch request, ConsoleError (substring0 200 tx)],
                 Inl (OtherError (js ''Error'')
                        (js ''Invalid JSON response from API: '' @ m)))))"
  have run: "getConversation env c =
      (case resolveConfig env of
         Inl e \<Rightarrow> ([], Inl e)
       | Inr config \<Rightarrow>
           (case fetchFn env (?req config) of
              Inl e \<Rightarrow> ([Fetch (?req config)], Inl e)
            | Inr response \<Rightarrow>
                if \<not> ok response then
                  ([Fetch (?req config)],
                   Inl (handleErrorResponse env response (js ''Failed to fetch conversation'')))
                else ?rest (?req config) response))"
    by (cases "resolveConfig env") (simp_all add: getConversation_def Let_def)
  have rest: "requests (fst (?rest r response)) = [r]" for r response
    by (simp split: sum.splits)
  have last: "response_text response = Inl e \<or>
      (\<exists>tx m. response_text response = Inr tx \<and> JSON_parse env tx = Inl m \<and>
         e = OtherError (js ''Error'') (js ''Invalid JSON response from API: '' @ m))"
    if "snd (?rest r response) = Inl e" for r response
    using that by (auto split: sum.splits if_splits)
  from accessor_error [where rest = ?rest and req = ?req, OF run rest assms] last
  show ?thesis by blast
qed

lemma getBookArtifacts_error:
  assumes "snd (getBookArtifacts env b) = Inl e"
  shows "resolveConfig env = Inl e \<or>
    (\<exists>r. requests (fst (getBookArtifacts env b)) = [r] \<and>
      (fetchFn env r = Inl e \<or>
       (\<exists>response. fetchFn env r = Inr response \<and>
          (\<not> ok response \<and>
             e = handleErrorResponse env response (js ''Failed to fetch book artifacts'') \<or>
           ok response \<and> response_json env response = Inl e))))"
proof -
  let ?req = "\<lambda>config.
      \<lparr>input = getApiUrl config (js ''/api/halap/artifacts/books/'' @ b),
       init_method = None, init_headers = getAuthHeaders config,
       init_body = None, init_signal = None\<rparr> :: 'a Request"
  let ?rest = "\<lambda>request response. ([Fetch request], response_json env response)"
  have run: "getBookArtifacts env b =
      (case resolveConfig env of
         Inl e \<Rightarrow> ([], Inl e)
       | Inr config \<Rightarrow>
           (case fetchFn env (?req config) of
              Inl e \<Rightarrow> ([Fetch (?req config)], Inl e)
            | Inr response \<Rightarrow>
                if \<not> ok response then
                  ([Fetch (?req config)],
                   Inl (handleErrorResponse env response (js ''Failed to fetch book artifacts'')))
                else ?rest (?req config) response))"
    by (cases "resolveConfig env") (simp_all add: getBookArtifacts_def Let_def)
  have rest: "requests (fst (?rest r response)) = [r]" for r response
    by simp
  from accessor_error [where rest = ?rest and req = ?req, OF run rest assms]
  show ?thesis by simp
qed

lemma getMusicArtifacts_error:
  assumes "snd (getMusicArtifacts env a) = Inl e"
  shows "resolveConfig env = Inl e \<or>
    (\<exists>r. requests (fst (getMusicArtifacts env a)) = [r] \<and>
      (fetchFn env r = Inl e \<or>
       (\<exists>response. fetchFn env r = Inr response \<and>
          (\<not> ok response \<and>
             e = handleErrorResponse env response (js ''Failed to fetch music artifacts'') \<or>
           ok response \<and> response_json env response = Inl e))))"
proof -
  let ?req = "\<lambda>config.
      \<lparr>input = getApiUrl config (js ''/api/halap/artifacts/music/'' @ a),
       init_method = None, init_headers = getAuthHeaders config,
       init_body = None, init_signal = None\<rparr> :: 'a Request"
  let ?rest = "\<lambda>request response. ([Fetch request], response_json env response)"
  have run: "getMusicArtifacts env a =
      (case resolveConfig env of
         Inl e \<Rightarrow> ([], Inl e)
       | Inr config \<Rightarrow>
           (case fetchFn env (?req config) of
              Inl e \<Rightarrow> ([Fetch (?req config)], Inl e)
            | Inr response \<Rightarrow>
                if \<not> ok response then
                  ([Fetch (?req config)],
                   Inl (handleErrorResponse env response (js ''Failed to fetch music artifacts'')))
                else ?rest (?req config) response))"
    by (cases "resolveConfig env") (simp_all add: getMusicArtifacts_def Let_def)
  have rest: "requests (fst (?rest r response)) = [r]" for r response
    by simp
  from accessor_error [where rest = ?rest and req = ?req, OF run rest assms]
  show ?thesis by simp
qed

lemma getBookPresentations_error:
  assumes "snd (getBookPresentations env isbn13s) = Inl e"
  shows "e \<in> {HalapiError (js ''At least one ISBN-13 is required'') None,
               HalapiError (js ''Maximum 100 ISBN-13s allowed per request'') None} \<or>
    resolveConfig env = Inl e \<or>
    (\<exists>r. requests (fst (getBookPresentations env isbn13s)) = [r] \<and>
      (fetchFn env r = Inl e \<or>
       (\<exists>response. fetchFn env r = Inr response \<and>
          (\<not> ok response \<and>
             e = handleErrorResponse env response (js ''Failed to fetch book presentations'') \<or>
           ok response \<and> response_json env response = Inl e))))"
proof (cases "length isbn13s = 0 \<or> 100 < length isbn13s")
  case True
  with assms show ?thesis
    by (auto simp: getBookPresentations_def split: if_splits)
next
  case False
  let ?req = "\<lambda>config.
      \<lparr>input = getApiUrl config (js ''/api/halap/books/presentations''),
       init_method = Some (js ''POST''),
       init_headers = getAuthHeaders config @ [(js ''Content-Type'', js ''application/json'')],
       init_body = Some (IsbnBody isbn13s), init_signal = None\<rparr> :: 'a Request"
  let ?rest = "\<lambda>request response. ([Fetch request], response_json env response)"
  have run: "getBookPresentations env isbn13s =
      (case resolveConfig env of
         Inl e \<Rightarrow> ([], Inl e)
       | Inr config \<Rightarrow>
           (case fetchFn env (?req config) of
              Inl e \<Rightarrow> ([Fetch (?req config)], Inl e)
            | Inr response \<Rightarrow>
                if \<not> ok response then
                  ([Fetch (?req config)],
                   Inl (handleErrorResponse env response
                          (js ''Failed to fetch book presentations'')))
                else ?rest (?req config) response))"
    using False by (cases "resolveConfig env") (simp_all add: getBookPresentations_def Let_def)
  have rest: "requests (fst (?rest r response)) = [r]" for r response
    by simp
  from accessor_error [where rest = ?rest and req = ?req, OF run rest assms]
  show ?thesis by simp
qed

section \<open>Properties of JSON.stringify and JSON.parse\<close>

declare parse_value.simps [simp del] parse_elements.simps [simp del] parse_members.simps [simp del]

lemma hex_value_hex_digit:
  assumes "k < 16"
  shows "hex_value (hex_digit k) = Some k"
proof -
  have "\<forall>k\<in>set [0..<16]. hex_value (hex_digit k) = Some k"
    by code_simp
  with assms show ?thesis by simp
qed

lemma hex_digits_value:
  "((n div 4096 * 16 + n div 256 mod 16) * 16 + n div 16 mod 16) * 16 + n mod 16 = (n::nat)"
proof -
  have a: "n div 4096 = n div 256 div 16"
    by (simp add: div_mult2_eq [symmetric])
  have b: "n div 256 = n div 16 div 16"
    by (simp add: div_mult2_eq [symmetric])
  have "n div 4096 * 16 + n div 256 mod 16 = n div 256"
    unfolding a by (rule div_mult_mod_eq)
  moreover have "n div 256 * 16 + n div 16 mod 16 = n div 16"
    unfolding b by (rule div_mult_mod_eq)
  moreover have "n div 16 * 16 + n mod 16 = n"
    by (rule div_mult_mod_eq)
  ultimately show ?thesis
    by (simp only:)
qed

lemma hex4_digits:
  "hex4 (unat c div 4096) (unat c div 256 mod 16) (unat c div 16 mod 16) (unat c mod 16) = c"
  unfolding hex4_def by (simp only: hex_digits_value of_nat_unat ucast_id)

lemma parse_chars_unicode:
  assumes "hex_value h1 = Some a" "hex_value h2 = Some b" "hex_value h3 = Some c" "hex_value h4 = Some d"
    and "hex4 a b c d = u"
  shows "parse_chars (0x5C # 0x75 # h1 # h2 # h3 # h4 # t) =
     (case parse_chars t of Some (s, r) \<Rightarrow> Some (u # s, r) | None \<Rightarrow> None)"
  using assms by (cases "parse_chars t") auto

lemma parse_chars_UnicodeEscape:
  "parse_chars (UnicodeEscape c @ t) =
     (case parse_chars t of Some (s, r) \<Rightarrow> Some (c # s, r) | None \<Rightarrow> None)"
proof -
  have "unat c < 65536"
    using unsigned_less [of c, where ?'a = nat] by simp
  then have 1: "unat c div 4096 < 16"
    by (simp add: less_mult_imp_div_less)
  have 2: "unat c div 256 mod 16 < 16" and 3: "unat c div 16 mod 16 < 16" and 4: "unat c mod 16 < 16"
    by (rule mod_less_divisor, simp)+
  have "UnicodeEscape c @ t = 0x5C # 0x75 # hex_digit (unat c div 4096) #
      hex_digit (unat c div 256 mod 16) # hex_digit (unat c div 16 mod 16) #
      hex_digit (unat c mod 16) # t"
    by (simp only: UnicodeEscape_def append_Cons append_Nil)
  then show ?thesis
    by (simp only: parse_chars_unicode [OF hex_value_hex_digit [OF 1] hex_value_hex_digit [OF 2]
          hex_value_hex_digit [OF 3] hex_value_hex_digit [OF 4] hex4_digits])
qed

lemma parse_chars_plain:
  assumes "\<not> c < 0x20" "c \<noteq> 0x22" "c \<noteq> 0x5C"
  shows "parse_chars (c # t) =
     (case parse_chars t of Some (s, r) \<Rightarrow> Some (c # s, r) | None \<Rightarrow> None)"
  using assms by simp

lemma parse_chars_escaped:
  assumes "quote_unit c = [0x5C, e]" "unescape e = Some c" "e \<noteq> 0x75"
  shows "parse_chars (quote_unit c @ t) =
     (case parse_chars t of Some (s, r) \<Rightarrow> Some (c # s, r) | None \<Rightarrow> None)"
  using assms by simp

lemma parse_chars_quote_unit:
  "parse_chars (quote_unit c @ t) =
     (case parse_chars t of Some (s, r) \<Rightarrow> Some (c # s, r) | None \<Rightarrow> None)"
proof -
  consider "c = 0x08" | "c = 0x09" | "c = 0x0A" | "c = 0x0C" | "c = 0x0D" | "c = 0x22" | "c = 0x5C"
    | "c \<noteq> 0x08" "c \<noteq> 0x09" "c \<noteq> 0x0A" "c \<noteq> 0x0C" "c \<noteq> 0x0D" "c \<noteq> 0x22" "c \<noteq> 0x5C"
      "c < 0x20 \<or> is_leading_surrogate c \<or> is_trailing_surrogate c"
    | "c \<noteq> 0x08" "c \<noteq> 0x09" "c \<noteq> 0x0A" "c \<noteq> 0x0C" "c \<noteq> 0x0D" "c \<noteq> 0x22" "c \<noteq> 0x5C"
      "\<not> (c < 0x20 \<or> is_leading_surrogate c \<or> is_trailing_surrogate c)"
    by argo
  then show ?thesis
  proof cases
    case 1
    then show ?thesis
      by (intro parse_chars_escaped [where e = "0x62"]) (simp_all add: quote_unit_def unescape_def)
  next
    case 2
    then show ?thesis
      by (intro parse_chars_escaped [where e = "0x74"]) (simp_all add: quote_unit_def unescape_def)
  next
    case 3
    then show ?thesis
      by (intro parse_chars_escaped [where e = "0x6E"]) (simp_all add: quote_unit_def unescape_def)
  next
    case 4
    then show ?thesis
      by (intro parse_chars_escaped [where e = "0x66"]) (simp_all add: quote_unit_def unescape_def)
  next
    case 5
    then show ?thesis
      by (intro parse_chars_escaped [where e = "0x72"]) (simp_all add: quote_unit_def unescape_def)
  next
    case 6
    then show ?thesis
      by (intro parse_chars_escaped [where e = "0x22"]) (simp_all add: quote_unit_def unescape_def)
  next
    case 7
    then show ?thesis
      by (intro parse_chars_escaped [where e = "0x5C"]) (simp_all add: quote_unit_def unescape_def)
  next
    case 8
    then have "quote_unit c = UnicodeEscape c"
      by (simp add: quote_unit_def)
    then show ?thesis by (simp add: parse_chars_UnicodeEscape)
  next
    case 9
    then have "quote_unit c = [c]"
      by (simp add: quote_unit_def)
    with 9 show ?thesis by simp
  qed
qed

lemma surrogate_plain:
  assumes "is_leading_surrogate c \<or> is_trailing_surrogate c"
  shows "\<not> c < 0x20" "c \<noteq> 0x22" "c \<noteq> 0x5C"
  using assms unfolding is_leading_surrogate_def is_trailing_surrogate_def
  by unat_arith+

lemma parse_chars_quote_units:
  "parse_chars (quote_units s @ 0x22 # rest) = Some (s, rest)"
proof (induction s rule: quote_units.induct)
  case 1
  show ?case by simp
next
  case (2 c)
  have "parse_chars (quote_unit c @ 0x22 # rest) = Some ([c], rest)"
    by (subst parse_chars_quote_unit) simp
  then show ?case by simp
next
  case (3 c d cs)
  show ?case
  proof (cases "is_leading_surrogate c \<and> is_trailing_surrogate d")
    case True
    then have c: "\<not> c < 0x20" "c \<noteq> 0x22" "c \<noteq> 0x5C" and d: "\<not> d < 0x20" "d \<noteq> 0x22" "d \<noteq> 0x5C"
      using surrogate_plain [of c] surrogate_plain [of d] by simp_all
    have "parse_chars (c # d # quote_units cs @ 0x22 # rest) = Some (c # d # cs, rest)"
      by (subst parse_chars_plain [OF c], subst parse_chars_plain [OF d])
        (simp add: "3.IH"(1) [OF True])
    with True show ?thesis by simp
  next
    case False
    have "parse_chars (quote_unit c @ quote_units (d # cs) @ 0x22 # rest) = Some (c # d # cs, rest)"
      by (subst parse_chars_quote_unit) (simp add: "3.IH"(2) [OF False])
    moreover have "quote_units (c # d # cs) = quote_unit c @ quote_units (d # cs)"
      by (simp only: quote_units.simps if_not_P [OF False])
    ultimately show ?thesis by simp
  qed
qed

lemma parse_chars_QuoteJSONString:
  "parse_chars (tl (QuoteJSONString s) @ rest) = Some (s, rest)"
  by (simp add: QuoteJSONString_def parse_chars_quote_units)


lemma create_properties_snoc:
  "create_properties (ms @ [(k, v)]) = CreateDataProperty (create_properties ms) k v"
  by (simp add: create_properties_def)

lemma insert_index_last:
  assumes "\<forall>q\<in>set ps. \<exists>j. array_index (fst q) = Some j \<and> j < i"
  shows "insert_index i p ps = ps @ [p]"
  using assms by (induction ps) auto

lemma create_properties_ordered:
  assumes "distinct (map fst ms)" "sorted_wrt key_before (map fst ms)"
  shows "create_properties ms = ms"
  using assms
proof (induction ms rule: rev_induct)
  case Nil
  show ?case by (simp add: create_properties_def)
next
  case (snoc m ms)
  obtain k v where m: "m = (k, v)" by (cases m)
  from snoc.prems have d: "distinct (map fst ms)" "k \<notin> fst ` set ms"
    and s: "sorted_wrt key_before (map fst ms)" "\<forall>q\<in>set ms. key_before (fst q) k"
    by (auto simp: m sorted_wrt_append)
  have ms: "create_properties ms = ms"
    using snoc.IH d(1) s(1) by simp
  have "CreateDataProperty ms k v = ms @ [(k, v)]"
  proof (cases "array_index k")
    case None
    with d(2) show ?thesis by (simp add: CreateDataProperty_def)
  next
    case (Some i)
    with s(2) have "\<forall>q\<in>set ms. \<exists>j. array_index (fst q) = Some j \<and> j < i"
      by (auto simp: key_before_def split: option.splits)
    then have "insert_index i (k, v) ms = ms @ [(k, v)]"
      by (rule insert_index_last)
    with d(2) Some show ?thesis by (simp add: CreateDataProperty_def)
  qed
  then show ?case
    by (simp add: m create_properties_snoc ms)
qed

lemma JSON_stringify_start:
  assumes "representable num txt v"
  shows "\<exists>c cs. JSON_stringify txt v = c # cs \<and> value_start c"
proof (cases v)
  case (JSNumber n)
  with assms obtain x where x: "n = Finite x" "txt x \<noteq> []" "list_all number_char (txt x)"
    by (cases n) auto
  then obtain c cs where "txt x = c # cs" by (cases "txt x") auto
  with x JSNumber show ?thesis by (auto simp: value_start_def)
qed (auto simp: value_start_def js_def QuoteJSONString_def)

lemma value_start_not_whitespace:
  "value_start c \<Longrightarrow> \<not> is_whitespace c \<and> c \<noteq> 0x5D \<and> c \<noteq> 0x7D"
  by (auto simp: value_start_def is_whitespace_def number_char_def)

lemma skip_whitespace_start:
  "\<not> is_whitespace c \<Longrightarrow> skip_whitespace (c # cs) = c # cs"
  by (simp add: skip_whitespace_def)

lemma number_token:
  assumes "list_all number_char tok" "\<not> continues_number rest"
  shows "takeWhile number_char (tok @ rest) = tok" "dropWhile number_char (tok @ rest) = rest"
  using assms
  by (induction tok) (auto simp: continues_number_def split: list.splits)

lemma parse_value_number:
  assumes "txt x \<noteq> []" "list_all number_char (txt x)" "num (txt x) = Some (Finite x)"
    and "\<not> continues_number rest"
  shows "parse_value num (txt x @ rest) = Some (JSNumber (Finite x), rest)"
proof -
  obtain c cs where c: "txt x = c # cs" using assms(1) by (cases "txt x") auto
  with assms(2) have n: "number_char c" by simp
  then have w: "\<not> is_whitespace c" and o: "c \<noteq> 0x7B" "c \<noteq> 0x5B" "c \<noteq> 0x22"
    "c \<noteq> 0x74" "c \<noteq> 0x66" "c \<noteq> 0x6E"
    by (auto simp: number_char_def is_whitespace_def)
  have t: "takeWhile number_char (c # cs @ rest) = txt x"
     "dropWhile number_char (c # cs @ rest) = rest"
    using number_token [OF assms(2) assms(4)] by (simp_all add: c)
  show ?thesis
    apply (subst parse_value.simps)
    apply (simp only: c append_Cons skip_whitespace_start [OF w] list.case)
    apply (simp only: t assms(3))
    using o n apply (simp add: js_def)
    done
qed


lemma separate_Cons:
  "separate (x # xs) = x @ (if xs = [] then [] else 0x2C # separate xs)"
  by (cases xs) simp_all

lemma parse_value_literals:
  "parse_value num (js ''null'' @ rest) = Some (JSNull, rest)"
  "parse_value num (js ''true'' @ rest) = Some (JSBoolean True, rest)"
  "parse_value num (js ''false'' @ rest) = Some (JSBoolean False, rest)"
  by (subst parse_value.simps, simp add: js_def skip_whitespace_def is_whitespace_def)+

lemma parse_value_string:
  "parse_value num (QuoteJSONString s @ rest) = Some (JSString s, rest)"
  by (subst parse_value.simps)
    (simp add: QuoteJSONString_def skip_whitespace_def is_whitespace_def parse_chars_quote_units)

lemma parse_value_empty_array:
  "parse_value num (0x5B # 0x5D # rest) = Some (JSArray [], rest)"
  by (subst parse_value.simps) (simp add: skip_whitespace_def is_whitespace_def)

lemma parse_value_empty_object:
  "parse_value num (0x7B # 0x7D # rest) = Some (JSObject [], rest)"
  by (subst parse_value.simps) (simp add: skip_whitespace_def is_whitespace_def)

lemma parse_value_array:
  assumes "value_start c" "parse_elements num (c # cs) = Some (vs, rest)"
  shows "parse_value num (0x5B # c # cs) = Some (JSArray vs, rest)"
proof -
  have "skip_whitespace (c # cs) = c # cs" "c \<noteq> 0x5D"
    using value_start_not_whitespace [OF assms(1)] by (simp_all add: skip_whitespace_def)
  then show ?thesis
    by (subst parse_value.simps) (simp add: skip_whitespace_def is_whitespace_def assms(2))
qed

lemma parse_value_object:
  assumes "parse_members num (0x22 # cs) = Some (ms, rest)"
  shows "parse_value num (0x7B # 0x22 # cs) = Some (JSObject (create_properties ms), rest)"
  by (subst parse_value.simps) (simp add: skip_whitespace_def is_whitespace_def assms)

lemma parse_elements_last:
  assumes "parse_value num s = Some (v, 0x5D # rest)" "length rest + 1 < length s"
  shows "parse_elements num s = Some ([v], rest)"
  apply (subst parse_elements.simps)
  using assms apply (simp add: skip_whitespace_def is_whitespace_def)
  done

lemma parse_elements_more:
  assumes "parse_value num s = Some (v, 0x2C # s')" "length s' + 1 < length s"
    and "parse_elements num s' = Some (vs, rest)"
  shows "parse_elements num s = Some (v # vs, rest)"
  apply (subst parse_elements.simps)
  using assms apply (simp add: skip_whitespace_def is_whitespace_def)
  done

lemma parse_members_last:
  assumes "parse_value num s = Some (v, 0x7D # rest)" "length rest + 1 < length s"
  shows "parse_members num (QuoteJSONString k @ 0x3A # s) = Some ([(k, v)], rest)"
  apply (subst parse_members.simps)
  using assms apply (simp add: QuoteJSONString_def parse_chars_quote_units skip_whitespace_def
      is_whitespace_def)
  done

lemma parse_members_more:
  assumes "parse_value num s = Some (v, 0x2C # s')" "length s' + 1 < length s"
    and "parse_members num s' = Some (ms, rest)"
  shows "parse_members num (QuoteJSONString k @ 0x3A # s) = Some ((k, v) # ms, rest)"
  apply (subst parse_members.simps)
  using assms apply (simp add: QuoteJSONString_def parse_chars_quote_units skip_whitespace_def
      is_whitespace_def)
  done

lemma continues_number_separators:
  "\<not> continues_number (0x5D # rest)" "\<not> continues_number (0x7D # rest)"
  "\<not> continues_number (0x2C # rest)" "\<not> continues_number []"
  by (simp_all add: continues_number_def number_char_def)

lemma parse_elements_separate:
  assumes "vs \<noteq> []"
    and "\<And>v rest. v \<in> set vs \<Longrightarrow> \<not> continues_number rest \<Longrightarrow>
           parse_value num (JSON_stringify txt v @ rest) = Some (v, rest)"
    and "\<And>v. v \<in> set vs \<Longrightarrow> JSON_stringify txt v \<noteq> []"
  shows "parse_elements num (separate (map (JSON_stringify txt) vs) @ 0x5D # rest) = Some (vs, rest)"
  using assms
proof (induction vs rule: list_nonempty_induct)
  case (single v)
  have "parse_value num (JSON_stringify txt v @ 0x5D # rest) = Some (v, 0x5D # rest)"
    by (rule single.prems(1)) (simp_all add: continues_number_separators)
  moreover have "length rest + 1 < length (JSON_stringify txt v @ 0x5D # rest)"
    using single.prems(2) [of v] by (cases "JSON_stringify txt v") simp_all
  ultimately show ?case
    by (simp add: parse_elements_last)
next
  case (cons v vs)
  let ?tail = "separate (map (JSON_stringify txt) vs) @ 0x5D # rest"
  have "parse_value num (JSON_stringify txt v @ 0x2C # ?tail) = Some (v, 0x2C # ?tail)"
    by (rule cons.prems(1)) (simp_all add: continues_number_separators)
  moreover have "length ?tail + 1 < length (JSON_stringify txt v @ 0x2C # ?tail)"
    using cons.prems(2) [of v] by (cases "JSON_stringify txt v") simp_all
  moreover have "parse_elements num ?tail = Some (vs, rest)"
    by (rule cons.IH) (simp_all add: cons.prems)
  ultimately have "parse_elements num (JSON_stringify txt v @ 0x2C # ?tail) = Some (v # vs, rest)"
    by (rule parse_elements_more)
  with cons.hyps show ?case
    by (simp add: separate_Cons)
qed

lemma parse_members_separate:
  assumes "ms \<noteq> []"
    and "\<And>k v rest. (k, v) \<in> set ms \<Longrightarrow> \<not> continues_number rest \<Longrightarrow>
           parse_value num (JSON_stringify txt v @ rest) = Some (v, rest)"
    and "\<And>k v. (k, v) \<in> set ms \<Longrightarrow> JSON_stringify txt v \<noteq> []"
  shows "parse_members num
           (separate (map (\<lambda>(k, v). QuoteJSONString k @ 0x3A # JSON_stringify txt v) ms) @ 0x7D # rest)
         = Some (ms, rest)"
  using assms
proof (induction ms rule: list_nonempty_induct)
  case (single m)
  obtain k v where m: "m = (k, v)" by (cases m)
  have "parse_value num (JSON_stringify txt v @ 0x7D # rest) = Some (v, 0x7D # rest)"
    by (rule single.prems(1) [of k]) (simp_all add: m continues_number_separators)
  moreover have "length rest + 1 < length (JSON_stringify txt v @ 0x7D # rest)"
    using single.prems(2) [of k v] by (cases "JSON_stringify txt v") (simp_all add: m)
  ultimately have "parse_members num (QuoteJSONString k @ 0x3A # JSON_stringify txt v @ 0x7D # rest)
      = Some ([(k, v)], rest)"
    by (rule parse_members_last)
  then show ?case
    by (simp add: m)
next
  case (cons m ms)
  obtain k v where m: "m = (k, v)" by (cases m)
  let ?tail = "separate (map (\<lambda>(k, v). QuoteJSONString k @ 0x3A # JSON_stringify txt v) ms)
      @ 0x7D # rest"
  have "parse_value num (JSON_stringify txt v @ 0x2C # ?tail) = Some (v, 0x2C # ?tail)"
    by (rule cons.prems(1) [of k]) (simp_all add: m continues_number_separators)
  moreover have "length ?tail + 1 < length (JSON_stringify txt v @ 0x2C # ?tail)"
    using cons.prems(2) [of k v] by (cases "JSON_stringify txt v") (simp_all add: m)
  moreover have "parse_members num ?tail = Some (ms, rest)"
  proof (rule cons.IH)
    fix k v rest'
    assume "(k, v) \<in> set ms" "\<not> continues_number rest'"
    then show "parse_value num (JSON_stringify txt v @ rest') = Some (v, rest')"
      using cons.prems(1) [of k v rest'] by simp
  next
    fix k v
    assume "(k, v) \<in> set ms"
    then show "JSON_stringify txt v \<noteq> []"
      using cons.prems(2) [of k v] by simp
  qed
  ultimately have "parse_members num (QuoteJSONString k @ 0x3A # JSON_stringify txt v @ 0x2C # ?tail)
      = Some ((k, v) # ms, rest)"
    by (rule parse_members_more)
  with cons.hyps show ?case
    by (simp add: m separate_Cons)
qed

lemma parse_value_JSON_stringify:
  assumes "representable num txt v" "\<not> continues_number rest"
  shows "parse_value num (JSON_stringify txt v @ rest) = Some (v, rest)"
  using assms
proof (induction v arbitrary: rest)
  case JSNull
  show ?case by (simp add: parse_value_literals)
next
  case (JSBoolean b)
  show ?case by (simp add: parse_value_literals)
next
  case (JSNumber n)
  then show ?case
    by (cases n) (simp_all add: parse_value_number)
next
  case (JSString s)
  show ?case by (simp add: parse_value_string)
next
  case (JSArray vs)
  show ?case
  proof (cases vs)
    case Nil
    then show ?thesis by (simp add: parse_value_empty_array)
  next
    case (Cons w ws)
    have r: "\<And>v. v \<in> set vs \<Longrightarrow> representable num txt v"
      using JSArray.prems(1) by simp
    have e: "parse_elements num (separate (map (JSON_stringify txt) vs) @ 0x5D # rest) = Some (vs, rest)"
    proof (rule parse_elements_separate)
      show "vs \<noteq> []" using Cons by simp
    next
      fix v rest'
      assume "v \<in> set vs" "\<not> continues_number rest'"
      then show "parse_value num (JSON_stringify txt v @ rest') = Some (v, rest')"
        using JSArray.IH r by simp
    next
      fix v
      assume "v \<in> set vs"
      then show "JSON_stringify txt v \<noteq> []"
        using JSON_stringify_start [OF r, of v] by auto
    qed
    obtain c cs where c: "JSON_stringify txt w = c # cs" "value_start c"
      using JSON_stringify_start [OF r [of w]] Cons by auto
    obtain t where t: "separate (map (JSON_stringify txt) vs) @ 0x5D # rest = c # t"
      using c(1) Cons by (simp add: separate_Cons)
    have "parse_value num (0x5B # c # t) = Some (JSArray vs, rest)"
      using c(2) e [unfolded t] by (rule parse_value_array)
    then show ?thesis
      using t by simp
  qed
next
  case (JSObject ms)
  show ?case
  proof (cases ms)
    case Nil
    then show ?thesis by (simp add: parse_value_empty_object)
  next
    case (Cons m ms')
    have r: "\<And>k v. (k, v) \<in> set ms \<Longrightarrow> representable num txt v"
      using JSObject.prems(1) by auto
    have e: "parse_members num
        (separate (map (\<lambda>(k, v). QuoteJSONString k @ 0x3A # JSON_stringify txt v) ms) @ 0x7D # rest)
        = Some (ms, rest)"
    proof (rule parse_members_separate)
      show "ms \<noteq> []" using Cons by simp
    next
      fix k v rest'
      assume "(k, v) \<in> set ms" "\<not> continues_number rest'"
      then show "parse_value num (JSON_stringify txt v @ rest') = Some (v, rest')"
        using JSObject.IH [of "(k, v)" v rest'] r by simp
    next
      fix k v
      assume "(k, v) \<in> set ms"
      then show "JSON_stringify txt v \<noteq> []"
        using JSON_stringify_start [OF r, of k v] by auto
    qed
    obtain t where t: "separate (map (\<lambda>(k, v). QuoteJSONString k @ 0x3A # JSON_stringify txt v) ms)
        @ 0x7D # rest = 0x22 # t"
      using Cons by (cases m) (simp add: separate_Cons QuoteJSONString_def)
    have "parse_value num (0x7B # 0x22 # t) = Some (JSObject (create_properties ms), rest)"
      using e [unfolded t] by (rule parse_value_object)
    moreover have "create_properties ms = ms"
      using JSObject.prems(1) by (simp add: create_properties_ordered)
    ultimately show ?thesis
      using t by simp
  qed
qed

lemma JSON_parse_text_JSON_stringify:
  assumes "representable num txt v"
  shows "JSON_parse_text num (JSON_stringify txt v) = Some v"
  using parse_value_JSON_stringify [OF assms continues_number_separators(4)]
  by (simp add: JSON_parse_text_def skip_whitespace_def)


lemma hex_digit_not_LF:
  assumes "k < 16"
  shows "hex_digit k \<noteq> 0x0A"
proof -
  have "\<forall>k\<in>set [0..<16]. hex_digit k \<noteq> 0x0A"
    by code_simp
  with assms show ?thesis by simp
qed

lemma UnicodeEscape_not_LF: "0x0A \<notin> set (UnicodeEscape c)"
proof -
  have "unat c < 65536"
    using unsigned_less [of c, where ?'a = nat] by simp
  then have 1: "unat c div 4096 < 16"
    by (simp add: less_mult_imp_div_less)
  have 2: "unat c div 256 mod 16 < 16" and 3: "unat c div 16 mod 16 < 16" and 4: "unat c mod 16 < 16"
    by (rule mod_less_divisor, simp)+
  show ?thesis
    using hex_digit_not_LF [OF 1] hex_digit_not_LF [OF 2] hex_digit_not_LF [OF 3]
      hex_digit_not_LF [OF 4]
    by (simp add: UnicodeEscape_def)
qed

lemma quote_unit_not_LF: "0x0A \<notin> set (quote_unit c)"
  using UnicodeEscape_not_LF [of c] by (simp add: quote_unit_def)

lemma surrogate_not_LF:
  assumes "is_leading_surrogate c \<or> is_trailing_surrogate c"
  shows "c \<noteq> 0x0A"
  using assms unfolding is_leading_surrogate_def is_trailing_surrogate_def
  by unat_arith

lemma quote_units_not_LF: "0x0A \<notin> set (quote_units s)"
proof (induction s rule: quote_units.induct)
  case 1
  show ?case by simp
next
  case (2 c)
  show ?case by (simp add: quote_unit_not_LF)
next
  case (3 c d cs)
  show ?case
  proof (cases "is_leading_surrogate c \<and> is_trailing_surrogate d")
    case True
    then have "c \<noteq> 0x0A" "d \<noteq> 0x0A"
      using surrogate_not_LF [of c] surrogate_not_LF [of d] by simp_all
    with True "3.IH"(1) show ?thesis by auto
  next
    case False
    have "quote_units (c # d # cs) = quote_unit c @ quote_units (d # cs)"
      by (simp only: quote_units.simps if_not_P [OF False])
    with "3.IH"(2) [OF False] show ?thesis
      by (simp add: quote_unit_not_LF)
  qed
qed

lemma QuoteJSONString_not_LF: "0x0A \<notin> set (QuoteJSONString s)"
  using quote_units_not_LF [of s] by (simp add: QuoteJSONString_def)

lemma separate_not_LF:
  assumes "\<And>x. x \<in> set xs \<Longrightarrow> 0x0A \<notin> set x"
  shows "0x0A \<notin> set (separate xs)"
  using assms by (induction xs rule: separate.induct) auto

lemma JSON_stringify_not_LF:
  assumes "representable num txt v"
  shows "0x0A \<notin> set (JSON_stringify txt v)"
  using assms
proof (induction v)
  case JSNull
  show ?case by (simp add: js_def)
next
  case (JSBoolean b)
  show ?case by (simp add: js_def)
next
  case (JSNumber n)
  then obtain x where x: "n = Finite x" "list_all number_char (txt x)"
    by (cases n) auto
  have "\<not> number_char 0x0A"
    by (simp add: number_char_def)
  with x show ?case
    by (auto simp: list_all_iff)
next
  case (JSString s)
  show ?case by (simp add: QuoteJSONString_not_LF)
next
  case (JSArray vs)
  have "0x0A \<notin> set (separate (map (JSON_stringify txt) vs))"
    by (rule separate_not_LF) (use JSArray in auto)
  then show ?case by simp
next
  case (JSObject ms)
  have "0x0A \<notin> set (separate (map (\<lambda>(k, v). QuoteJSONString k @ 0x3A # JSON_stringify txt v) ms))"
  proof (rule separate_not_LF)
    fix x
    assume "x \<in> set (map (\<lambda>(k, v). QuoteJSONString k @ 0x3A # JSON_stringify txt v) ms)"
    then obtain k v where m: "(k, v) \<in> set ms" and x: "x = QuoteJSONString k @ 0x3A # JSON_stringify txt v"
      by auto
    from m JSObject.prems have "representable num txt v" by auto
    with m have "0x0A \<notin> set (JSON_stringify txt v)"
      using JSObject.IH [of "(k, v)" v] by simp
    then show "0x0A \<notin> set x"
      by (simp add: x QuoteJSONString_not_LF)
  qed
  then show ?case by simp
qed


lemma chatStream_one_record:
  assumes "getConfig env = Inr config" and "isConfigValid config"
    and "fetchFn env (chatStream_request config options) = Inr response" and "ok response"
    and "body response = Some (map Chunk chunks)"
    and "fst (decode new_TextDecoder (concat chunks)) = js ''data: '' @ p @ [LF]"
    and "LF \<notin> set p"
    and "JSON_parse env p = Inr v"
  shows "emitted (fst (chatStream env options None)) = [v]"
proof -
  let ?l = "js ''data: '' @ p"
  have nolf: "LF \<notin> set l" if "l \<in> set [?l]" for l
    using that assms(7) by (simp add: js_def LF_def)
  have fl: "for_lines (JSON_parse env) [?l] None = ([Yield v], None, False)"
    using assms(8) by (simp add: startsWith_def slice_def js_def)
  have "chatStream env options None =
     (Fetch (chatStream_request config options)
        # fst (for_lines (JSON_parse env) [?l] None) @ [ReleaseLock],
      Returned (ChatStreamResult (headers_get response (js ''X-Conversation-Id''))
                                (headers_get response (js ''X-Message-Id''))))"
    using chatStream_chunks [OF assms(1-5), of "[?l]" "[]"] assms(6) nolf by simp
  then show ?thesis
    unfolding fl by simp
qed


section \<open>The claims\<close>

text \<open>
  C1. A body whose decoded text consists solely of records \<open>data: {json}\<close> followed by a
  newline, each payload on one line and accepted by \<open>JSON.parse\<close>, makes \<open>chatStream\<close>
  yield exactly one event per record, in the order of the records, however the bytes
  are cut into chunks.
\<close>

theorem chatStream_one_event_per_record:
  assumes "getConfig env = Inr config" and "isConfigValid config"
    and "fetchFn env (chatStream_request config options) = Inr response" and "ok response"
    and "body response = Some (map Chunk chunks)"
    and "fst (decode new_TextDecoder (concat chunks)) =
           concat (map (\<lambda>p. js ''data: '' @ p @ [LF]) payloads)"
    and "list_all2 (\<lambda>p e. LF \<notin> set p \<and> JSON_parse env p = Inr e) payloads events"
  shows "emitted (fst (chatStream env options None)) = events"
proof -
  let ?ls = "map (\<lambda>p. js ''data: '' @ p) payloads"
  have tx: "fst (decode new_TextDecoder (concat chunks)) = concat (map (\<lambda>l. l @ [LF]) ?ls) @ []"
    using assms(6) by (simp add: comp_def)
  have nolf: "LF \<notin> set l" if "l \<in> set ?ls" for l
  proof -
    from that obtain p where p: "p \<in> set payloads" and l: "l = js ''data: '' @ p" by auto
    from p assms(7) have "LF \<notin> set p"
      by (auto simp: list_all2_conv_all_nth in_set_conv_nth)
    then show ?thesis by (simp add: l js_def LF_def)
  qed
  have "list_all2 (\<lambda>p e. JSON_parse env p = Inr e) payloads events"
    using assms(7) by (rule list_all2_mono) simp
  then have "for_lines (JSON_parse env) ?ls None = (map Yield events, None, False)"
    by (rule for_lines_records)
  then show ?thesis
    using chatStream_chunks [OF assms(1-5) tx nolf] by (simp add: emitted_append emitted_map_Yield)
qed

theorem chatStream_one_event_per_record_witness:
  "emitted (fst (chatStream
      (scenario_env scenario_config
         (scenario_response
            (Some [Chunk (ascii ''data: '' @ ascii text_delta_Hi_json @ [0x0A] @ ascii ''data: ''),
                   Chunk (ascii error_E_json @ [0x0A])])))
      scenario_options None))
   = [text_delta_Hi, error_E]"
proof -
  let ?chunks = "[ascii ''data: '' @ ascii text_delta_Hi_json @ [0x0A] @ ascii ''data: '',
                  ascii error_E_json @ [0x0A]]"
  let ?response = "scenario_response (Some (map Chunk ?chunks))"
  let ?env = "scenario_env scenario_config ?response"
  have 1: "getConfig ?env = Inr scenario_config"
    by (simp add: scenario_env_def)
  have 2: "isConfigValid scenario_config"
    by (simp add: isConfigValid_def scenario_config_def js_def)
  have 3: "fetchFn ?env (chatStream_request scenario_config scenario_options) = Inr ?response"
    by (simp add: scenario_env_def)
  have 4: "ok ?response"
    by (simp add: scenario_response_def)
  have 5: "body ?response = Some (map Chunk ?chunks)"
    by (simp add: scenario_response_def)
  have 6: "fst (decode new_TextDecoder (concat ?chunks)) =
      concat (map (\<lambda>p. js ''data: '' @ p @ [LF]) [js text_delta_Hi_json, js error_E_json])"
    by code_simp
  have 7: "list_all2 (\<lambda>p e. LF \<notin> set p \<and> JSON_parse ?env p = Inr e)
      [js text_delta_Hi_json, js error_E_json] [text_delta_Hi, error_E]"
    by code_simp
  show ?thesis
    using chatStream_one_event_per_record [OF 1 2 3 4 5 6 7] by simp
qed

text \<open>
  C2. A record whose payload \<open>JSON.parse\<close> rejects does not end the decoding and raises
  nothing: the run returns its result, the line is written by \<open>console.warn\<close>, the events
  are those of the lines before it followed by those of the lines after it, and every
  well-formed record after it is yielded.
\<close>

theorem chatStream_skips_malformed_record:
  assumes "getConfig env = Inr config" and "isConfigValid config"
    and "fetchFn env (chatStream_request config options) = Inr response" and "ok response"
    and "body response = Some (map Chunk chunks)"
    and "fst (decode new_TextDecoder (concat chunks)) =
           concat (map (\<lambda>l. l @ [LF]) (before @ [js ''data: '' @ bad] @ after))"
    and "list_all (\<lambda>l. LF \<notin> set l) (before @ [bad] @ after)"
    and "JSON_parse env bad = Inl m"
  shows "snd (chatStream env options None) =
           Returned (ChatStreamResult (headers_get response (js ''X-Conversation-Id''))
                                      (headers_get response (js ''X-Message-Id'')))
       \<and> Warn (js ''data: '' @ bad) \<in> set (fst (chatStream env options None))
       \<and> emitted (fst (chatStream env options None)) =
           emitted (fst (for_lines (JSON_parse env) before None)) @
           emitted (fst (for_lines (JSON_parse env) after None))
       \<and> (\<forall>p e. js ''data: '' @ p \<in> set after \<and> JSON_parse env p = Inr e \<longrightarrow>
             e \<in> set (emitted (fst (chatStream env options None))))"
proof -
  let ?ls = "before @ [js ''data: '' @ bad] @ after"
  have tx: "fst (decode new_TextDecoder (concat chunks)) = concat (map (\<lambda>l. l @ [LF]) ?ls) @ []"
    using assms(6) by simp
  have nolf: "LF \<notin> set l" if "l \<in> set ?ls" for l
    using that assms(7) by (auto simp: list_all_iff js_def LF_def)
  have run: "chatStream env options None =
     (Fetch (chatStream_request config options)
        # fst (for_lines (JSON_parse env) ?ls None) @ [ReleaseLock],
      Returned (ChatStreamResult (headers_get response (js ''X-Conversation-Id''))
                                (headers_get response (js ''X-Message-Id''))))"
    using chatStream_chunks [OF assms(1-5) tx nolf] by simp
  have ev: "emitted (fst (for_lines (JSON_parse env) ?ls None)) =
      emitted (fst (for_lines (JSON_parse env) before None)) @
      emitted (fst (for_lines (JSON_parse env) after None))"
    using for_lines_skip [of "JSON_parse env" bad m after, OF assms(8)]
    by (simp add: for_lines_None_append emitted_append)
  have warn: "Warn (js ''data: '' @ bad) \<in> set (fst (for_lines (JSON_parse env) ?ls None))"
    using for_lines_skip [of "JSON_parse env" bad m after, OF assms(8)]
    by (simp add: for_lines_None_append)
  have mem: "e \<in> set (emitted (fst (for_lines (JSON_parse env) after None)))"
    if "js ''data: '' @ p \<in> set after" and "JSON_parse env p = Inr e" for p e
    using that by (rule for_lines_member)
  show ?thesis
    using ev mem warn by (auto simp add: run emitted_append)
qed

theorem chatStream_skips_malformed_record_witness:
  "snd (chatStream
      (scenario_env scenario_config
         (scenario_response (Some [Chunk (ascii ''data: {not json}'' @ [0x0A]
                                          @ ascii ''data: '' @ ascii error_E_json @ [0x0A])])))
      scenario_options None)
   = Returned (ChatStreamResult (Some (js ''c9'')) (Some (js ''m9'')))
   \<and> emitted (fst (chatStream
      (scenario_env scenario_config
         (scenario_response (Some [Chunk (ascii ''data: {not json}'' @ [0x0A]
                                          @ ascii ''data: '' @ ascii error_E_json @ [0x0A])])))
      scenario_options None))
   = [error_E]"
proof -
  let ?chunks = "[ascii ''data: {not json}'' @ [0x0A] @ ascii ''data: '' @ ascii error_E_json @ [0x0A]]"
  let ?response = "scenario_response (Some (map Chunk ?chunks))"
  let ?env = "scenario_env scenario_config ?response"
  have 1: "getConfig ?env = Inr scenario_config"
    by (simp add: scenario_env_def)
  have 2: "isConfigValid scenario_config"
    by (simp add: isConfigValid_def scenario_config_def js_def)
  have 3: "fetchFn ?env (chatStream_request scenario_config scenario_options) = Inr ?response"
    by (simp add: scenario_env_def)
  have 4: "ok ?response"
    by (simp add: scenario_response_def)
  have 5: "body ?response = Some (map Chunk ?chunks)"
    by (simp add: scenario_response_def)
  have 6: "fst (decode new_TextDecoder (concat ?chunks)) =
      concat (map (\<lambda>l. l @ [LF]) ([] @ [js ''data: '' @ js ''{not json}''] @ [js ''data: '' @ js error_E_json]))"
    by code_simp
  have 7: "list_all (\<lambda>l. LF \<notin> set l) ([] @ [js ''{not json}''] @ [js ''data: '' @ js error_E_json])"
    by code_simp
  have 8: "JSON_parse ?env (js ''{not json}'') = Inl (js ''Unexpected token'')"
    by code_simp
  have 9: "emitted (fst (for_lines (JSON_parse ?env) [js ''data: '' @ js error_E_json] None)) = [error_E]"
    by code_simp
  have 10: "headers_get ?response (js ''X-Conversation-Id'') = Some (js ''c9'')"
    "headers_get ?response (js ''X-Message-Id'') = Some (js ''m9'')"
    by code_simp+
  show ?thesis
    using chatStream_skips_malformed_record [OF 1 2 3 4 5 6 7 8] 9 10 by simp
qed

text \<open>
  C3. When the body arrives in two chunks, cut at any byte (inside a line or inside a
  multi-byte character), the run is the same as when the same bytes arrive in one
  chunk; a well-formed record delivered so yields its one event.
\<close>

theorem chatStream_record_split_in_two_chunks:
  assumes "getConfig env = Inr config" and "isConfigValid config"
    and "fetchFn env (chatStream_request config options) = Inr response" and "ok response"
    and "body response = Some [Chunk a, Chunk b]"
  shows "chatStream env options None =
           chatStream (env\<lparr>fetchFn := \<lambda>_. Inr (response\<lparr>body := Some [Chunk (a @ b)]\<rparr>)\<rparr>)
             options None
       \<and> (fst (decode new_TextDecoder (a @ b)) = js ''data: '' @ p @ [LF] \<and> LF \<notin> set p \<and>
           JSON_parse env p = Inr e \<longrightarrow>
             emitted (fst (chatStream env options None)) = [e])"
proof -
  let ?env = "env\<lparr>fetchFn := \<lambda>_. Inr (response\<lparr>body := Some [Chunk (a @ b)]\<rparr>)\<rparr>"
  let ?response = "response\<lparr>body := Some [Chunk (a @ b)]\<rparr>"
  let ?lines = "butlast (split_on LF (fst (decode new_TextDecoder (a @ b))))"
  have two: "read_loop (JSON_parse env) (map Chunk [a, b]) new_TextDecoder [] None =
      (fst (for_lines (JSON_parse env) ?lines None), Finished)"
    using read_loop_None [of "[]" "JSON_parse env" "[a, b]" new_TextDecoder] by simp
  have one: "read_loop (JSON_parse ?env) (map Chunk [a @ b]) new_TextDecoder [] None =
      (fst (for_lines (JSON_parse ?env) ?lines None), Finished)"
    using read_loop_None [of "[]" "JSON_parse ?env" "[a @ b]" new_TextDecoder] by simp
  have split: "chatStream env options None =
     (Fetch (chatStream_request config options)
        # fst (for_lines (JSON_parse env) ?lines None) @ [ReleaseLock],
      Returned (ChatStreamResult (headers_get response (js ''X-Conversation-Id''))
                                (headers_get response (js ''X-Message-Id''))))"
    using chatStream_decoding [OF assms(1-4), of "map Chunk [a, b]" None] assms(5)
    unfolding two by simp
  have whole: "chatStream ?env options None =
     (Fetch (chatStream_request config options)
        # fst (for_lines (JSON_parse env) ?lines None) @ [ReleaseLock],
      Returned (ChatStreamResult (headers_get response (js ''X-Conversation-Id''))
                                (headers_get response (js ''X-Message-Id''))))"
    using chatStream_decoding [of ?env config options ?response "map Chunk [a @ b]" None]
      assms(1,2,4)
    unfolding one by simp
  have "emitted (fst (chatStream env options None)) = [e]"
    if tx: "fst (decode new_TextDecoder (a @ b)) = js ''data: '' @ p @ [LF]"
      and p: "LF \<notin> set p" and e: "JSON_parse env p = Inr e"
  proof -
    from p have "LF \<notin> set (js ''data: '' @ p)"
      by (simp add: js_def LF_def)
    then have "split_on LF ((js ''data: '' @ p) @ LF # []) = [js ''data: '' @ p] @ [[]]"
      unfolding split_on_sep_append by (simp add: split_on_no_sep)
    then have "?lines = [js ''data: '' @ p]"
      by (simp add: tx)
    moreover have "for_lines (JSON_parse env) [js ''data: '' @ p] None = ([Yield e], None, False)"
      using e by (simp add: startsWith_def slice_def js_def)
    ultimately show ?thesis
      unfolding split by simp
  qed
  with split whole show ?thesis by simp
qed

theorem chatStream_record_split_in_two_chunks_witness:
  "emitted (fst (chatStream
      (scenario_env scenario_config
         (scenario_response
            (Some [Chunk (ascii ''data: '' @ ascii text_delta_open_json @ [0xC3]),
                   Chunk ([0xA9] @ ascii text_delta_close_json @ [0x0A])])))
      scenario_options None))
   = [text_delta_e_acute]"
proof -
  let ?a = "ascii ''data: '' @ ascii text_delta_open_json @ [0xC3]"
  let ?b = "[0xA9] @ ascii text_delta_close_json @ [0x0A]"
  let ?response = "scenario_response (Some [Chunk ?a, Chunk ?b])"
  let ?env = "scenario_env scenario_config ?response"
  have 1: "getConfig ?env = Inr scenario_config"
    by (simp add: scenario_env_def)
  have 2: "isConfigValid scenario_config"
    by (simp add: isConfigValid_def scenario_config_def js_def)
  have 3: "fetchFn ?env (chatStream_request scenario_config scenario_options) = Inr ?response"
    by (simp add: scenario_env_def)
  have 4: "ok ?response"
    by (simp add: scenario_response_def)
  have 5: "body ?response = Some [Chunk ?a, Chunk ?b]"
    by (simp add: scenario_response_def)
  have 6: "fst (decode new_TextDecoder (?a @ ?b)) = js ''data: '' @ text_delta_e_acute_json @ [LF]
      \<and> LF \<notin> set text_delta_e_acute_json
      \<and> JSON_parse ?env text_delta_e_acute_json = Inr text_delta_e_acute"
    by code_simp
  show ?thesis
    by (rule mp [OF conjunct2 [OF chatStream_record_split_in_two_chunks
          [where p = text_delta_e_acute_json and e = text_delta_e_acute, OF 1 2 3 4 5]] 6])
qed

text \<open>
  C4. What follows the last newline of the body is never handed to the loop over the
  lines: the run is that of the terminated lines alone and returns normally, whatever
  the unterminated rest is.
\<close>

theorem chatStream_drops_unterminated_final_record:
  assumes "getConfig env = Inr config" and "isConfigValid config"
    and "fetchFn env (chatStream_request config options) = Inr response" and "ok response"
    and "body response = Some (map Chunk chunks)"
    and "fst (decode new_TextDecoder (concat chunks)) = concat (map (\<lambda>l. l @ [LF]) ls) @ final"
    and "list_all (\<lambda>l. LF \<notin> set l) (final # ls)"
  shows "chatStream env options None =
     (Fetch (chatStream_request config options)
        # fst (for_lines (JSON_parse env) ls None) @ [ReleaseLock],
      Returned (ChatStreamResult (headers_get response (js ''X-Conversation-Id''))
                                (headers_get response (js ''X-Message-Id''))))"
proof -
  have "LF \<notin> set l" if "l \<in> set ls" for l
    using that assms(7) by (simp add: list_all_iff)
  moreover have "LF \<notin> set final"
    using assms(7) by simp
  ultimately show ?thesis
    using chatStream_chunks [OF assms(1-6)] by simp
qed


theorem chatStream_drops_unterminated_final_record_witness:
  "emitted (fst (chatStream
      (scenario_env scenario_config
         (scenario_response (Some [Chunk (ascii ''data: '' @ ascii text_delta_Hi_json @ [0x0A]),
                                   Chunk (ascii ''data: '' @ ascii error_E_json)])))
      scenario_options None))
   = [text_delta_Hi]
   \<and> snd (chatStream
      (scenario_env scenario_config
         (scenario_response (Some [Chunk (ascii ''data: '' @ ascii text_delta_Hi_json @ [0x0A]),
                                   Chunk (ascii ''data: '' @ ascii error_E_json)])))
      scenario_options None)
   = Returned (ChatStreamResult (Some (js ''c9'')) (Some (js ''m9'')))"
proof -
  let ?chunks = "[ascii ''data: '' @ ascii text_delta_Hi_json @ [0x0A],
                  ascii ''data: '' @ ascii error_E_json]"
  let ?response = "scenario_response (Some (map Chunk ?chunks))"
  let ?env = "scenario_env scenario_config ?response"
  have 1: "getConfig ?env = Inr scenario_config"
    by (simp add: scenario_env_def)
  have 2: "isConfigValid scenario_config"
    by (simp add: isConfigValid_def scenario_config_def js_def)
  have 3: "fetchFn ?env (chatStream_request scenario_config scenario_options) = Inr ?response"
    by (simp add: scenario_env_def)
  have 4: "ok ?response"
    by (simp add: scenario_response_def)
  have 5: "body ?response = Some (map Chunk ?chunks)"
    by (simp add: scenario_response_def)
  have 6: "fst (decode new_TextDecoder (concat ?chunks)) =
      concat (map (\<lambda>l. l @ [LF]) [js ''data: '' @ js text_delta_Hi_json])
      @ js ''data: '' @ js error_E_json"
    by code_simp
  have 7: "list_all (\<lambda>l. LF \<notin> set l)
      ((js ''data: '' @ js error_E_json) # [js ''data: '' @ js text_delta_Hi_json])"
    by code_simp
  have 8: "emitted (fst (for_lines (JSON_parse ?env) [js ''data: '' @ js text_delta_Hi_json] None)) =
      [text_delta_Hi]"
    by code_simp
  have 9: "headers_get ?response (js ''X-Conversation-Id'') = Some (js ''c9'')"
    "headers_get ?response (js ''X-Message-Id'') = Some (js ''m9'')"
    by code_simp+
  show ?thesis
    using chatStream_drops_unterminated_final_record [OF 1 2 3 4 5 6 7] 8 9
    by (simp add: emitted_append)
qed

text \<open>
  C5. A run that returns normally returns the values that \<open>X-Conversation-Id\<close> and
  \<open>X-Message-Id\<close> have in the headers of the response it was given (\<open>None\<close>, that is
  \<open>null\<close>, for an absent header); with a successful response and an empty body the run
  yields no event, releases the reader and returns these two values.
\<close>

theorem chatStream_result_from_headers:
  "(snd (chatStream env options k) = Returned r \<longrightarrow>
      (\<exists>config response.
          getConfig env = Inr config \<and>
          fetchFn env (chatStream_request config options) = Inr response \<and>
          r = ChatStreamResult (headers_get response (js ''X-Conversation-Id''))
                               (headers_get response (js ''X-Message-Id''))))
   \<and> (getConfig env = Inr config \<and> isConfigValid config \<and>
       fetchFn env (chatStream_request config options) = Inr response \<and>
       ok response \<and> body response = Some [] \<longrightarrow>
      chatStream env options k =
        ([Fetch (chatStream_request config options), ReleaseLock],
         Returned (ChatStreamResult (headers_get response (js ''X-Conversation-Id''))
                                    (headers_get response (js ''X-Message-Id'')))))"
proof -
  have "\<exists>config response.
          getConfig env = Inr config \<and>
          fetchFn env (chatStream_request config options) = Inr response \<and>
          r = ChatStreamResult (headers_get response (js ''X-Conversation-Id''))
                               (headers_get response (js ''X-Message-Id''))"
    if "snd (chatStream env options k) = Returned r"
    using that
    by (auto simp: chatStream_def resolveConfig_def Let_def split_beta
             split: sum.splits if_splits option.splits loop_exit.splits)
  moreover have "chatStream env options k =
      ([Fetch (chatStream_request config options), ReleaseLock],
       Returned (ChatStreamResult (headers_get response (js ''X-Conversation-Id''))
                                  (headers_get response (js ''X-Message-Id''))))"
    if "getConfig env = Inr config" and "isConfigValid config"
      and "fetchFn env (chatStream_request config options) = Inr response"
      and "ok response" and "body response = Some []"
    using chatStream_decoding [OF that, of k] by simp
  ultimately show ?thesis by blast
qed

theorem chatStream_result_from_headers_witness:
  "chatStream (scenario_env scenario_config (scenario_response (Some []))) scenario_options None =
     ([Fetch (chatStream_request scenario_config scenario_options), ReleaseLock],
      Returned (ChatStreamResult (Some (js ''c9'')) (Some (js ''m9''))))
   \<and> emitted (fst (chatStream (scenario_env scenario_config (scenario_response (Some [])))
                     scenario_options None)) = []"
proof -
  let ?response = "scenario_response (Some [])"
  let ?env = "scenario_env scenario_config ?response"
  have 1: "getConfig ?env = Inr scenario_config \<and> isConfigValid scenario_config \<and>
      fetchFn ?env (chatStream_request scenario_config scenario_options) = Inr ?response \<and>
      ok ?response \<and> body ?response = Some []"
    by (simp add: scenario_env_def isConfigValid_def scenario_config_def js_def
          scenario_response_def)
  have 2: "headers_get ?response (js ''X-Conversation-Id'') = Some (js ''c9'')"
    "headers_get ?response (js ''X-Message-Id'') = Some (js ''m9'')"
    by code_simp+
  have run: "chatStream ?env scenario_options None =
      ([Fetch (chatStream_request scenario_config scenario_options), ReleaseLock],
       Returned (ChatStreamResult (headers_get ?response (js ''X-Conversation-Id''))
                                  (headers_get ?response (js ''X-Message-Id''))))"
    by (rule mp [OF conjunct2 [OF chatStream_result_from_headers
          [where config = scenario_config and response = ?response and r = undefined]] 1])
  show ?thesis
    by (simp add: run 2)
qed

text \<open>
  C6. With \<open>JSON.stringify\<close> and \<open>JSON.parse\<close> as the platform defines them, take an event
  made of \<open>null\<close>, booleans, strings, arrays, plain objects and finite numbers whose
  decimal text is read back as the same number. A body whose decoded text is the line
  \<open>data: \<close>, the serialisation of the event and a newline makes \<open>chatStream\<close> yield
  exactly that event. This is not so for every event: \<open>NaN\<close> and the infinities are
  written \<open>null\<close>, and the event that comes back holds \<open>null\<close> in their place.
\<close>

theorem chatStream_decodes_stringified_event:
  assumes "getConfig env = Inr config" and "isConfigValid config"
    and "fetchFn env (chatStream_request config options) = Inr response" and "ok response"
    and "body response = Some (map Chunk chunks)"
    and "\<And>tx v. JSON_parse_text number_of_text tx = Some v \<Longrightarrow> JSON_parse env tx = Inr v"
    and "fst (decode new_TextDecoder (concat chunks)) =
           js ''data: '' @ JSON_stringify number_text e @ [LF]"
    and "representable number_of_text number_text e"
  shows "emitted (fst (chatStream env options None)) = [e]"
proof -
  have "JSON_parse_text number_of_text (JSON_stringify number_text e) = Some e"
    by (rule JSON_parse_text_JSON_stringify [OF assms(8)])
  then have p: "JSON_parse env (JSON_stringify number_text e) = Inr e"
    by (rule assms(6))
  have l: "LF \<notin> set (JSON_stringify number_text e)"
    using JSON_stringify_not_LF [OF assms(8)] by (simp add: LF_def)
  show ?thesis
    by (rule chatStream_one_record [OF assms(1-5) assms(7) l p])
qed

theorem chatStream_decodes_stringified_event_witness:
  "emitted (fst (chatStream
      (scenario_JSON_env scenario_config
         (scenario_response (Some [Chunk (ascii ''data: '' @ ascii done_m1_json @ [0x0A])])))
      scenario_JSON_options None))
   = [done_m1_value]"
proof -
  let ?chunks = "[ascii ''data: '' @ ascii done_m1_json @ [0x0A]]"
  let ?response = "scenario_response (Some (map Chunk ?chunks))"
  let ?env = "scenario_JSON_env scenario_config ?response"
  have 1: "getConfig ?env = Inr scenario_config"
    by (simp add: scenario_JSON_env_def)
  have 2: "isConfigValid scenario_config"
    by (simp add: isConfigValid_def scenario_config_def js_def)
  have 3: "fetchFn ?env (chatStream_request scenario_config scenario_JSON_options) = Inr ?response"
    by (simp add: scenario_JSON_env_def)
  have 4: "ok ?response"
    by (simp add: scenario_response_def)
  have 5: "body ?response = Some (map Chunk ?chunks)"
    by (simp add: scenario_response_def)
  have 6: "JSON_parse ?env tx = Inr v" if "JSON_parse_text scenario_number_of_text tx = Some v"
    for tx v
    using that by (simp add: scenario_JSON_env_def)
  have 7: "fst (decode new_TextDecoder (concat ?chunks)) =
      js ''data: '' @ JSON_stringify scenario_Number_toString done_m1_value @ [LF]"
    by code_simp
  have 8: "representable scenario_number_of_text scenario_Number_toString done_m1_value"
    by code_simp
  show ?thesis
    using chatStream_decodes_stringified_event [OF 1 2 3 4 5 6 7 8]
    by simp
qed

theorem chatStream_NaN_event_counterexample:
  "JSON_stringify scenario_Number_toString done_NaN = js done_null_json
   \<and> emitted (fst (chatStream
        (scenario_JSON_env scenario_config
           (scenario_response (Some [Chunk (ascii ''data: '' @ ascii done_null_json @ [0x0A])])))
        scenario_JSON_options None))
     = [done_null]
   \<and> done_null \<noteq> done_NaN"
proof -
  let ?chunks = "[ascii ''data: '' @ ascii done_null_json @ [0x0A]]"
  let ?response = "scenario_response (Some (map Chunk ?chunks))"
  let ?env = "scenario_JSON_env scenario_config ?response"
  have 1: "getConfig ?env = Inr scenario_config"
    by (simp add: scenario_JSON_env_def)
  have 2: "isConfigValid scenario_config"
    by (simp add: isConfigValid_def scenario_config_def js_def)
  have 3: "fetchFn ?env (chatStream_request scenario_config scenario_JSON_options) = Inr ?response"
    by (simp add: scenario_JSON_env_def)
  have 4: "ok ?response"
    by (simp add: scenario_response_def)
  have 5: "body ?response = Some (map Chunk ?chunks)"
    by (simp add: scenario_response_def)
  have 6: "fst (decode new_TextDecoder (concat ?chunks)) = js ''data: '' @ js done_null_json @ [LF]"
    by code_simp
  have 7: "LF \<notin> set (js done_null_json)"
    by code_simp
  have "JSON_parse_text scenario_number_of_text (js done_null_json) = Some done_null"
    by code_simp
  then have 8: "JSON_parse ?env (js done_null_json) = Inr done_null"
    by (simp add: scenario_JSON_env_def)
  have s: "JSON_stringify scenario_Number_toString done_NaN = js done_null_json"
    by code_simp
  have e: "emitted (fst (chatStream ?env scenario_JSON_options None)) = [done_null]"
    by (rule chatStream_one_record [OF 1 2 3 4 5 6 7 8])
  have n: "done_null \<noteq> done_NaN"
    by (simp add: done_null_def done_NaN_def)
  from s e n show ?thesis
    by simp
qed

text \<open>
  C7. \<open>getBookPresentations\<close> fails at once, with a \<open>HalapiError\<close> and without any effect,
  when the list is empty or has more than 100 elements. A list of 1 to 100 elements
  passes this check; the request, with the list as its body, is then sent when the
  configuration has a token, and when the configuration fails the call fails with that
  error and still sends nothing.
\<close>

theorem getBookPresentations_length_check:
  "(length isbn13s = 0 \<or> 100 < length isbn13s \<longrightarrow>
      fst (getBookPresentations env isbn13s) = [] \<and>
      (\<exists>m. snd (getBookPresentations env isbn13s) = Inl (HalapiError m None)))
   \<and> (1 \<le> length isbn13s \<and> length isbn13s \<le> 100 \<and>
        getConfig env = Inr config \<and> isConfigValid config \<longrightarrow>
      (\<exists>r. requests (fst (getBookPresentations env isbn13s)) = [r] \<and>
           init_body r = Some (IsbnBody isbn13s)))
   \<and> (1 \<le> length isbn13s \<and> length isbn13s \<le> 100 \<and> resolveConfig env = Inl e \<longrightarrow>
      getBookPresentations env isbn13s = ([], Inl e))"
  by (auto simp: getBookPresentations_def resolveConfig_def Let_def split: sum.splits)

theorem getBookPresentations_length_check_witness:
  "fst (getBookPresentations (scenario_env scenario_config (scenario_response (Some []))) []) = []
   \<and> fst (getBookPresentations (scenario_env scenario_config (scenario_response (Some [])))
            (replicate 101 (js ''9780306406157''))) = []
   \<and> map init_body
        (requests (fst (getBookPresentations
           (scenario_env scenario_config (scenario_response (Some [])))
           [js ''9780306406157'']))) = [Some (IsbnBody [js ''9780306406157''])]"
proof -
  let ?env = "scenario_env scenario_config (scenario_response (Some []))"
  let ?i = "js ''9780306406157''"
  have 1: "getConfig ?env = Inr scenario_config \<and> isConfigValid scenario_config"
    by (simp add: scenario_env_def isConfigValid_def scenario_config_def js_def)
  note check = getBookPresentations_length_check
    [where env = ?env and config = scenario_config and e = "HalapiError [] None"]
  have a: "fst (getBookPresentations ?env []) = []"
    using check [where isbn13s = "[]"] by simp
  have b: "fst (getBookPresentations ?env (replicate 101 ?i)) = []"
    using check [where isbn13s = "replicate 101 ?i"] by simp
  have c: "map init_body (requests (fst (getBookPresentations ?env [?i]))) =
      [Some (IsbnBody [?i])]"
    using check [where isbn13s = "[?i]"] 1 by auto
  from a b c show ?thesis by simp
qed

theorem getBookPresentations_without_token_counterexample:
  "1 \<le> length [js ''9780306406157''] \<and> length [js ''9780306406157''] \<le> 100
   \<and> getBookPresentations
        (scenario_env \<lparr>apiUrl = js ''https://api.example.com'', apiToken = js ''''\<rparr>
           (scenario_response (Some [])))
        [js ''9780306406157'']
      = ([], Inl (HalapiError (js ''API token not configured'') None))"
  by (simp add: getBookPresentations_def resolveConfig_def scenario_env_def isConfigValid_def
        js_def)

text \<open>
  C8. An error that an operation raises is the \<open>HalapiError\<close> of the client (no token,
  unreadable body, empty or too long list of ISBNs, without status code), or the
  \<open>HalapiError\<close> that \<open>handleErrorResponse\<close> makes of the response to the request of this
  call when that response is not \<open>ok\<close>, carrying its status, or else it is an error of a
  collaborator or of the platform, unchanged: the configuration provider's, the
  transport's for this request, that of a read of the body of the response,
  the \<open>SyntaxError\<close> of \<open>response.json()\<close>, or the \<open>TypeError\<close> of \<open>JSON.stringify\<close> on the
  request body of \<open>chatStream\<close>. The one other error is the plain \<open>Error\<close> that
  \<open>getConversations\<close> and \<open>getConversation\<close> make of the message of \<open>JSON.parse\<close> when the
  response to their request is \<open>ok\<close> and its text is not JSON (lines 364 and 391).
  \<open>chatStream\<close> raises nothing for a record that does not parse.
\<close>

theorem client_error_kinds:
  "(snd (chatStream env options k) = Threw e \<longrightarrow>
      e = HalapiError (js ''API token not configured'') None
      \<or> getConfig env = Inl e
      \<or> (\<exists>r. requests (fst (chatStream env options k)) = [r] \<and>
            (fetchFn env r = Inl e \<or>
             (\<exists>response. fetchFn env r = Inr response \<and>
                (\<not> ok response \<and>
                   e = handleErrorResponse env response (js ''Chat stream failed'') \<and>
                   (\<exists>m. e = HalapiError m (Some (status response))) \<or>
                 ok response \<and>
                   (body response = None \<and>
                      e = HalapiError (js ''Response body is not readable'') None \<or>
                    (\<exists>reads. body response = Some reads \<and> ReadFails e \<in> set reads)))))))
   \<and> (snd (chatStream_unserialisable env stringify_error) = Threw e \<longrightarrow>
      e = HalapiError (js ''API token not configured'') None
      \<or> getConfig env = Inl e
      \<or> e = stringify_error)
   \<and> (snd (getConversations env u l) = Inl e \<longrightarrow>
      e = HalapiError (js ''API token not configured'') None
      \<or> getConfig env = Inl e
      \<or> (\<exists>r. requests (fst (getConversations env u l)) = [r] \<and>
            (fetchFn env r = Inl e \<or>
             (\<exists>response. fetchFn env r = Inr response \<and>
                (\<not> ok response \<and>
                   e = handleErrorResponse env response (js ''Failed to fetch conversations'') \<and>
                   (\<exists>m. e = HalapiError m (Some (status response))) \<or>
                 ok response \<and>
                   ((\<exists>reads. body response = Some reads \<and> ReadFails e \<in> set reads) \<or>
                    (\<exists>tx m. response_text response = Inr tx \<and> JSON_parse env tx = Inl m \<and>
                       e = OtherError (js ''Error'') (js ''Invalid JSON response from API: '' @ m))))))))
   \<and> (snd (getConversation env c) = Inl e \<longrightarrow>
      e = HalapiError (js ''API token not configured'') None
      \<or> getConfig env = Inl e
      \<or> (\<exists>r. requests (fst (getConversation env c)) = [r] \<and>
            (fetchFn env r = Inl e \<or>
             (\<exists>response. fetchFn env r = Inr response \<and>
                (\<not> ok response \<and>
                   e = handleErrorResponse env response (js ''Failed to fetch conversation'') \<and>
                   (\<exists>m. e = HalapiError m (Some (status response))) \<or>
                 ok response \<and>
                   ((\<exists>reads. body response = Some reads \<and> ReadFails e \<in> set reads) \<or>
                    (\<exists>tx m. response_text response = Inr tx \<and> JSON_parse env tx = Inl m \<and>
                       e = OtherError (js ''Error'') (js ''Invalid JSON response from API: '' @ m))))))))
   \<and> (snd (getBookArtifacts env b) = Inl e \<longrightarrow>
      e = HalapiError (js ''API token not configured'') None
      \<or> getConfig env = Inl e
      \<or> (\<exists>r. requests (fst (getBookArtifacts env b)) = [r] \<and>
            (fetchFn env r = Inl e \<or>
             (\<exists>response. fetchFn env r = Inr response \<and>
                (\<not> ok response \<and>
                   e = handleErrorResponse env response (js ''Failed to fetch book artifacts'') \<and>
                   (\<exists>m. e = HalapiError m (Some (status response))) \<or>
                 ok response \<and>
                   ((\<exists>reads. body response = Some reads \<and> ReadFails e \<in> set reads) \<or>
                    (\<exists>tx m. response_text response = Inr tx \<and> JSON_parse env tx = Inl m \<and>
                       e = OtherError (js ''SyntaxError'') m)))))))
   \<and> (snd (getMusicArtifacts env a) = Inl e \<longrightarrow>
      e = HalapiError (js ''API token not configured'') None
      \<or> getConfig env = Inl e
      \<or> (\<exists>r. requests (fst (getMusicArtifacts env a)) = [r] \<and>
            (fetchFn env r = Inl e \<or>
             (\<exists>response. fetchFn env r = Inr response \<and>
                (\<not> ok response \<and>
                   e = handleErrorResponse env response (js ''Failed to fetch music artifacts'') \<and>
                   (\<exists>m. e = HalapiError m (Some (status response))) \<or>
                 ok response \<and>
                   ((\<exists>reads. body response = Some reads \<and> ReadFails e \<in> set reads) \<or>
                    (\<exists>tx m. response_text response = Inr tx \<and> JSON_parse env tx = Inl m \<and>
                       e = OtherError (js ''SyntaxError'') m)))))))
   \<and> (snd (getBookPresentations env isbn13s) = Inl e \<longrightarrow>
     e \<in> {HalapiError (js ''At least one ISBN-13 is required'') None,
             HalapiError (js ''Maximum 100 ISBN-13s allowed per request'') None}
      \<or> e = HalapiError (js ''API token not configured'') None
      \<or> getConfig env = Inl e
      \<or> (\<exists>r. requests (fst (getBookPresentations env isbn13s)) = [r] \<and>
            (fetchFn env r = Inl e \<or>
             (\<exists>response. fetchFn env r = Inr response \<and>
                (\<not> ok response \<and>
                   e = handleErrorResponse env response (js ''Failed to fetch book presentations'') \<and>
                   (\<exists>m. e = HalapiError m (Some (status response))) \<or>
                 ok response \<and>
                   ((\<exists>reads. body response = Some reads \<and> ReadFails e \<in> set reads) \<or>
                    (\<exists>tx m. response_text response = Inr tx \<and> JSON_parse env tx = Inl m \<and>
                       e = OtherError (js ''SyntaxError'') m)))))))"
proof -
  note cfg = resolveConfig_error [of env e]
  have http: "\<exists>m. e = HalapiError m (Some (status response))"
    if "e = handleErrorResponse env response ctx" for response ctx
    using that handleErrorResponse_status [of env response ctx] by simp
  note tx = response_text_error [of _ e]
  note json = response_json_error [of env _ e]
  have stream:
    "e = HalapiError (js ''API token not configured'') None
      \<or> getConfig env = Inl e
      \<or> (\<exists>r. requests (fst (chatStream env options k)) = [r] \<and>
            (fetchFn env r = Inl e \<or>
             (\<exists>response. fetchFn env r = Inr response \<and>
                (\<not> ok response \<and>
                   e = handleErrorResponse env response (js ''Chat stream failed'') \<and>
                   (\<exists>m. e = HalapiError m (Some (status response))) \<or>
                 ok response \<and>
                   (body response = None \<and>
                      e = HalapiError (js ''Response body is not readable'') None \<or>
                    (\<exists>reads. body response = Some reads \<and> ReadFails e \<in> set reads))))))"
    if "snd (chatStream env options k) = Threw e"
    using chatStream_error [OF that] cfg http by blast
  have unserialisable: "e = HalapiError (js ''API token not configured'') None
      \<or> getConfig env = Inl e \<or> e = stringify_error"
    if "snd (chatStream_unserialisable env stringify_error) = Threw e"
    using that cfg by (auto simp: chatStream_unserialisable_def split: sum.splits)
  have convs:
    "e = HalapiError (js ''API token not configured'') None
      \<or> getConfig env = Inl e
      \<or> (\<exists>r. requests (fst (getConversations env u l)) = [r] \<and>
            (fetchFn env r = Inl e \<or>
             (\<exists>response. fetchFn env r = Inr response \<and>
                (\<not> ok response \<and>
                   e = handleErrorResponse env response (js ''Failed to fetch conversations'') \<and>
                   (\<exists>m. e = HalapiError m (Some (status response))) \<or>
                 ok response \<and>
                   ((\<exists>reads. body response = Some reads \<and> ReadFails e \<in> set reads) \<or>
                    (\<exists>tx m. response_text response = Inr tx \<and> JSON_parse env tx = Inl m \<and>
                       e = OtherError (js ''Error'') (js ''Invalid JSON response from API: '' @ m)))))))"
    if "snd (getConversations env u l) = Inl e"
    using getConversations_error [OF that] cfg http tx by blast
  have conv:
    "e = HalapiError (js ''API token not configured'') None
      \<or> getConfig env = Inl e
      \<or> (\<exists>r. requests (fst (getConversation env c)) = [r] \<and>
            (fetchFn env r = Inl e \<or>
             (\<exists>response. fetchFn env r = Inr response \<and>
                (\<not> ok response \<and>
                   e = handleErrorResponse env response (js ''Failed to fetch conversation'') \<and>
                   (\<exists>m. e = HalapiError m (Some (status response))) \<or>
                 ok response \<and>
                   ((\<exists>reads. body response = Some reads \<and> ReadFails e \<in> set reads) \<or>
                    (\<exists>tx m. response_text response = Inr tx \<and> JSON_parse env tx = Inl m \<and>
                       e = OtherError (js ''Error'') (js ''Invalid JSON response from API: '' @ m)))))))"
    if "snd (getConversation env c) = Inl e"
    using getConversation_error [OF that] cfg http tx by blast
  have books:
    "e = HalapiError (js ''API token not configured'') None
      \<or> getConfig env = Inl e
      \<or> (\<exists>r. requests (fst (getBookArtifacts env b)) = [r] \<and>
            (fetchFn env r = Inl e \<or>
             (\<exists>response. fetchFn env r = Inr response \<and>
                (\<not> ok response \<and>
                   e = handleErrorResponse env response (js ''Failed to fetch book artifacts'') \<and>
                   (\<exists>m. e = HalapiError m (Some (status response))) \<or>
                 ok response \<and>
                   ((\<exists>reads. body response = Some reads \<and> ReadFails e \<in> set reads) \<or>
                    (\<exists>tx m. response_text response = Inr tx \<and> JSON_parse env tx = Inl m \<and>
                       e = OtherError (js ''SyntaxError'') m))))))"
    if "snd (getBookArtifacts env b) = Inl e"
    using getBookArtifacts_error [OF that] cfg http json by blast
  have music:
    "e = HalapiError (js ''API token not configured'') None
      \<or> getConfig env = Inl e
      \<or> (\<exists>r. requests (fst (getMusicArtifacts env a)) = [r] \<and>
            (fetchFn env r = Inl e \<or>
             (\<exists>response. fetchFn env r = Inr response \<and>
                (\<not> ok response \<and>
                   e = handleErrorResponse env response (js ''Failed to fetch music artifacts'') \<and>
                   (\<exists>m. e = HalapiError m (Some (status response))) \<or>
                 ok response \<and>
                   ((\<exists>reads. body response = Some reads \<and> ReadFails e \<in> set reads) \<or>
                    (\<exists>tx m. response_text response = Inr tx \<and> JSON_parse env tx = Inl m \<and>
                       e = OtherError (js ''SyntaxError'') m))))))"
    if "snd (getMusicArtifacts env a) = Inl e"
    using getMusicArtifacts_error [OF that] cfg http json by blast
  have pres:
    "e \<in> {HalapiError (js ''At least one ISBN-13 is required'') None,
             HalapiError (js ''Maximum 100 ISBN-13s allowed per request'') None}
      \<or> e = HalapiError (js ''API token not configured'') None
      \<or> getConfig env = Inl e
      \<or> (\<exists>r. requests (fst (getBookPresentations env isbn13s)) = [r] \<and>
            (fetchFn env r = Inl e \<or>
             (\<exists>response. fetchFn env r = Inr response \<and>
                (\<not> ok response \<and>
                   e = handleErrorResponse env response (js ''Failed to fetch book presentations'') \<and>
                   (\<exists>m. e = HalapiError m (Some (status response))) \<or>
                 ok response \<and>
                   ((\<exists>reads. body response = Some reads \<and> ReadFails e \<in> set reads) \<or>
                    (\<exists>tx m. response_text response = Inr tx \<and> JSON_parse env tx = Inl m \<and>
                       e = OtherError (js ''SyntaxError'') m))))))"
    if "snd (getBookPresentations env isbn13s) = Inl e"
    using getBookPresentations_error [OF that] cfg http json by blast
  show ?thesis
    by (intro conjI impI) (erule stream, erule unserialisable, erule convs, erule conv,
      erule books, erule music, erule pres)
qed


theorem client_error_kinds_witness:
  "snd (chatStream
      (scenario_env scenario_config ((scenario_response (Some []))\<lparr>ok := False, status := 404\<rparr>))
      scenario_options None)
   = Threw (HalapiError (js ''Chat stream failed: HTTP 404'') (Some 404))
   \<and> (\<exists>r response.
        requests (fst (chatStream
          (scenario_env scenario_config
             ((scenario_response (Some []))\<lparr>ok := False, status := 404\<rparr>))
          scenario_options None)) = [r]
        \<and> fetchFn (scenario_env scenario_config
                     ((scenario_response (Some []))\<lparr>ok := False, status := 404\<rparr>)) r
            = Inr response
        \<and> \<not> ok response
        \<and> HalapiError (js ''Chat stream failed: HTTP 404'') (Some 404)
            = handleErrorResponse
                (scenario_env scenario_config
                   ((scenario_response (Some []))\<lparr>ok := False, status := 404\<rparr>))
                response (js ''Chat stream failed'')
        \<and> status response = 404)"
proof -
  let ?response = "(scenario_response (Some []))\<lparr>ok := False, status := 404\<rparr>"
  let ?env = "scenario_env scenario_config ?response"
  let ?e = "HalapiError (js ''Chat stream failed: HTTP 404'') (Some 404)"
  have run: "snd (chatStream ?env scenario_options None) = Threw ?e"
    by code_simp
  have 1: "?e \<noteq> HalapiError (js ''API token not configured'') None"
    by simp
  have 2: "getConfig ?env \<noteq> Inl ?e" "\<And>r. fetchFn ?env r \<noteq> Inl ?e"
    by (simp_all add: scenario_env_def)
  have 3: "response = ?response" if "fetchFn ?env r = Inr response" for r response
    using that by (simp add: scenario_env_def)
  have 4: "\<not> ok ?response" "status ?response = 404"
    by simp_all
  from mp [OF conjunct1 [OF client_error_kinds
        [where env = ?env and options = scenario_options and k = None and e = ?e]] run] 1 2
  obtain r response where "requests (fst (chatStream ?env scenario_options None)) = [r]"
    and "fetchFn ?env r = Inr response"
    and "\<not> ok response \<and> ?e = handleErrorResponse ?env response (js ''Chat stream failed'') \<and>
           (\<exists>m. ?e = HalapiError m (Some (status response))) \<or>
         ok response \<and>
           (body response = None \<and> ?e = HalapiError (js ''Response body is not readable'') None \<or>
            (\<exists>reads. body response = Some reads \<and> ReadFails ?e \<in> set reads))"
    by blast
  moreover from this 3 have "response = ?response" by blast
  ultimately show ?thesis
    using run 4 by blast
qed

theorem non_HalapiError_counterexample:
  "snd (chatStream
      ((scenario_env scenario_config (scenario_response (Some [])))
         \<lparr>fetchFn := \<lambda>_. Inl (OtherError (js ''AbortError'') (js ''The operation was aborted''))\<rparr>)
      scenario_options None)
   = Threw (OtherError (js ''AbortError'') (js ''The operation was aborted''))
   \<and> \<not> instanceof_HalapiError (OtherError (js ''AbortError'') (js ''The operation was aborted''))
   \<and> map_sum instanceof_HalapiError (\<lambda>_. ())
        (snd (getConversation
           (scenario_env scenario_config (scenario_response (Some [Chunk (ascii ''<html>'')])))
           (js ''c1'')))
      = Inl False"
proof -
  have "snd (chatStream
      ((scenario_env scenario_config (scenario_response (Some [])))
         \<lparr>fetchFn := \<lambda>_. Inl (OtherError (js ''AbortError'') (js ''The operation was aborted''))\<rparr>)
      scenario_options None)
   = Threw (OtherError (js ''AbortError'') (js ''The operation was aborted''))"
    by (simp add: chatStream_def resolveConfig_def scenario_env_def isConfigValid_def
          scenario_config_def js_def)
  moreover have "map_sum instanceof_HalapiError (\<lambda>_. ())
        (snd (getConversation
           (scenario_env scenario_config (scenario_response (Some [Chunk (ascii ''<html>'')])))
           (js ''c1'')))
      = Inl False"
    by code_simp
  ultimately show ?thesis by simp
qed

text \<open>
  C9. Once the reader has been taken, every run (to the end of the body, to a read
  that fails, or to the event on which the consumer leaves) releases the reader's lock
  exactly once, as its last effect. A consumer that leaves has received a prefix of the
  events of the full run, and the event on which it left is followed by the release
  alone.
\<close>

theorem chatStream_releases_reader_once:
  assumes "getConfig env = Inr config" and "isConfigValid config"
    and "fetchFn env (chatStream_request config options) = Inr response" and "ok response"
    and "body response = Some reads"
  shows "releases (fst (chatStream env options k)) = 1
       \<and> last (fst (chatStream env options k)) = ReleaseLock
       \<and> (\<forall>n. k = Some n \<longrightarrow>
             emitted (fst (chatStream env options k)) =
               take (Suc n) (emitted (fst (chatStream env options None))))
       \<and> (snd (chatStream env options k) = Abandoned \<longrightarrow>
             (\<exists>n tr e. k = Some n
                \<and> fst (chatStream env options k) = tr @ [Yield e, ReleaseLock]
                \<and> length (emitted (fst (chatStream env options k))) = Suc n))"
proof -
  let ?loop = "\<lambda>k. read_loop (JSON_parse env) reads new_TextDecoder [] k"
  note run = chatStream_decoding [OF assms]
  have rel: "releases (fst (chatStream env options k)) = 1"
    by (simp add: run releases_append read_loop_no_release)
  have lst: "last (fst (chatStream env options k)) = ReleaseLock"
    by (simp add: run)
  have pre: "emitted (fst (chatStream env options k)) =
      take (Suc n) (emitted (fst (chatStream env options None)))" if "k = Some n" for n
    using read_loop_Some [of "JSON_parse env" reads new_TextDecoder "[]" n] that
    by (simp add: run emitted_append)
  have ab: "\<exists>n tr e. k = Some n
        \<and> fst (chatStream env options k) = tr @ [Yield e, ReleaseLock]
        \<and> length (emitted (fst (chatStream env options k))) = Suc n"
    if "snd (chatStream env options k) = Abandoned"
  proof -
    from that have left: "snd (?loop k) = Left"
      by (simp add: run split: loop_exit.splits)
    with read_loop_None_exit [of "JSON_parse env" reads new_TextDecoder "[]"]
    obtain n where k: "k = Some n" by (cases k) auto
    from left k read_loop_Some [of "JSON_parse env" reads new_TextDecoder "[]" n]
    obtain tr e where "fst (?loop k) = tr @ [Yield e]"
      and "length (emitted (fst (?loop k))) = Suc n"
      by auto
    then have "fst (chatStream env options k) =
        (Fetch (chatStream_request config options) # tr) @ [Yield e, ReleaseLock]"
      and "length (emitted (fst (chatStream env options k))) = Suc n"
      by (simp_all add: run emitted_append)
    with k show ?thesis by blast
  qed
  show ?thesis
    by (intro conjI allI impI) (fact rel, fact lst, erule pre, erule ab)
qed


theorem chatStream_releases_reader_once_witness:
  "releases (fst (chatStream
      (scenario_env scenario_config
         (scenario_response
            (Some [Chunk (ascii ''data: '' @ ascii text_delta_Hi_json @ [0x0A]
                          @ ascii ''data: '' @ ascii error_E_json @ [0x0A]),
                   ReadFails (OtherError (js ''AbortError'') (js ''The operation was aborted''))])))
      scenario_options (Some 0))) = 1
   \<and> last (fst (chatStream
      (scenario_env scenario_config
         (scenario_response
            (Some [Chunk (ascii ''data: '' @ ascii text_delta_Hi_json @ [0x0A]
                          @ ascii ''data: '' @ ascii error_E_json @ [0x0A]),
                   ReadFails (OtherError (js ''AbortError'') (js ''The operation was aborted''))])))
      scenario_options (Some 0))) = ReleaseLock
   \<and> emitted (fst (chatStream
      (scenario_env scenario_config
         (scenario_response
            (Some [Chunk (ascii ''data: '' @ ascii text_delta_Hi_json @ [0x0A]
                          @ ascii ''data: '' @ ascii error_E_json @ [0x0A]),
                   ReadFails (OtherError (js ''AbortError'') (js ''The operation was aborted''))])))
      scenario_options (Some 0))) = [text_delta_Hi]"
proof -
  let ?reads = "[Chunk (ascii ''data: '' @ ascii text_delta_Hi_json @ [0x0A]
                        @ ascii ''data: '' @ ascii error_E_json @ [0x0A]),
                 ReadFails (OtherError (js ''AbortError'') (js ''The operation was aborted''))]"
  let ?response = "scenario_response (Some ?reads)"
  let ?env = "scenario_env scenario_config ?response"
  have 1: "getConfig ?env = Inr scenario_config"
    by (simp add: scenario_env_def)
  have 2: "isConfigValid scenario_config"
    by (simp add: isConfigValid_def scenario_config_def js_def)
  have 3: "fetchFn ?env (chatStream_request scenario_config scenario_options) = Inr ?response"
    by (simp add: scenario_env_def)
  have 4: "ok ?response"
    by (simp add: scenario_response_def)
  have 5: "body ?response = Some ?reads"
    by (simp add: scenario_response_def)
  have 6: "emitted (fst (chatStream ?env scenario_options (Some 0))) = [text_delta_Hi]"
    by code_simp
  note once = chatStream_releases_reader_once [OF 1 2 3 4 5, of "Some 0"]
  show ?thesis
    by (intro conjI) (rule conjunct1 [OF once], rule conjunct1 [OF conjunct2 [OF once]], rule 6)
qed

text \<open>
  C10. Every request that \<open>chatStream\<close> hands to the transport has a body whose
  \<open>externalUserId\<close> is \<open>sdk-user\<close> when the options give none and the given value
  otherwise; with a configured token exactly one request is handed over.
\<close>

theorem chatStream_sends_externalUserId:
  "(\<forall>r \<in> set (requests (fst (chatStream env options k))).
      \<exists>b. init_body r = Some b \<and>
          (externalUserId options = None \<longrightarrow> body_externalUserId b = js ''sdk-user'') \<and>
          (\<forall>u. externalUserId options = Some u \<longrightarrow> body_externalUserId b = u))
   \<and> (getConfig env = Inr config \<and> isConfigValid config \<longrightarrow>
        requests (fst (chatStream env options k)) = [chatStream_request config options])"
proof -
  have body: "\<exists>b. init_body (chatStream_request c options) = Some b \<and>
      (externalUserId options = None \<longrightarrow> body_externalUserId b = js ''sdk-user'') \<and>
      (\<forall>u. externalUserId options = Some u \<longrightarrow> body_externalUserId b = u)" for c
    by (simp add: chatStream_request_def)
  have sent: "requests (fst (chatStream env options k)) =
      (case resolveConfig env of Inl _ \<Rightarrow> [] | Inr c \<Rightarrow> [chatStream_request c options])"
    by (simp add: chatStream_def Let_def split_beta requests_append read_loop_no_request
          split: sum.splits option.splits)
  have "\<exists>b. init_body r = Some b \<and>
      (externalUserId options = None \<longrightarrow> body_externalUserId b = js ''sdk-user'') \<and>
      (\<forall>u. externalUserId options = Some u \<longrightarrow> body_externalUserId b = u)"
    if "r \<in> set (requests (fst (chatStream env options k)))" for r
    using that body unfolding sent by (cases "resolveConfig env") auto
  moreover have "requests (fst (chatStream env options k)) = [chatStream_request config options]"
    if "getConfig env = Inr config" and "isConfigValid config"
    using that unfolding sent by (simp add: resolveConfig_def)
  ultimately show ?thesis by blast
qed

theorem chatStream_sends_externalUserId_witness:
  "map (map_option body_externalUserId \<circ> init_body)
     (requests (fst (chatStream (scenario_env scenario_config (scenario_response (Some [])))
                       scenario_options None)))
   = [Some (js ''sdk-user'')]
   \<and> map (map_option body_externalUserId \<circ> init_body)
     (requests (fst (chatStream (scenario_env scenario_config (scenario_response (Some [])))
                       (scenario_options\<lparr>externalUserId := Some (js ''user-456'')\<rparr>) None)))
   = [Some (js ''user-456'')]"
proof -
  let ?env = "scenario_env scenario_config (scenario_response (Some []))"
  let ?given = "scenario_options\<lparr>externalUserId := Some (js ''user-456'')\<rparr>"
  have 1: "getConfig ?env = Inr scenario_config \<and> isConfigValid scenario_config"
    by (simp add: scenario_env_def isConfigValid_def scenario_config_def js_def)
  have 2: "externalUserId scenario_options = None"
    by (simp add: scenario_options_def)
  have 3: "externalUserId ?given = Some (js ''user-456'')"
    by simp
  note omitted = chatStream_sends_externalUserId
    [where env = ?env and config = scenario_config and options = scenario_options and k = None]
  note given = chatStream_sends_externalUserId
    [where env = ?env and config = scenario_config and options = ?given and k = None]
  from omitted 1 2
  have a: "map (map_option body_externalUserId \<circ> init_body)
      (requests (fst (chatStream ?env scenario_options None))) = [Some (js ''sdk-user'')]"
    by auto
  from given 1 3
  have b: "map (map_option body_externalUserId \<circ> init_body)
      (requests (fst (chatStream ?env ?given None))) = [Some (js ''user-456'')]"
    by auto
  from a b show ?thesis by (rule conjI)
qed

end
